theory Spec2Isabelle
  imports Main "HOL-Library.Word"
begin

unbundle bit_operations_syntax

section \<open>The FDC+ serial disk server (fdc.h, fdc.cpp)\<close>

subsection \<open>Constants and types of fdc.h\<close>

type_synonym quint8 = "8 word"
type_synonym quint16 = "16 word"

definition MAX_DRIVE :: int where "MAX_DRIVE = 4"
definition CMD_LEN :: nat where "CMD_LEN = 8"
definition CRC_LEN :: nat where "CRC_LEN = 2"
definition CMDBUF_SIZE :: nat where "CMDBUF_SIZE = CMD_LEN + CRC_LEN"
definition TRKBUF_SIZE :: nat where "TRKBUF_SIZE = 137 * 32"

definition STAT_OK :: quint16 where "STAT_OK = 0"
definition STAT_NOT_READY :: quint16 where "STAT_NOT_READY = 1"
definition STAT_CHECKSUM_ERR :: quint16 where "STAT_CHECKSUM_ERR = 2"
definition STAT_WRITE_ERR :: quint16 where "STAT_WRITE_ERR = 3"

definition FDC_TIMEOUT :: nat where "FDC_TIMEOUT = 2000"

text \<open>\<open>sizeof\<close> of each of \<open>tmpBuf\<close>, \<open>inBuf\<close> and \<open>outBuf\<close>.\<close>

definition TRKBUF_BYTES :: nat where "TRKBUF_BYTES = TRKBUF_SIZE + CRC_LEN"

text \<open>The two values of the member \<open>state\<close>.\<close>

datatype fdc_state = STATE_CMD | STATE_WRIT

text \<open>
  The text of an \<open>errorMessage\<close> signal. The source formats the drive number and the
  baud rate into the text; the model keeps the number beside the kind of message.
\<close>

datatype message =
    Text string
  | DriveOutOfRange int
  | CouldNotSetBaud string int

text \<open>
  Everything the object does to the outside, in the order it happens: the signals of
  the class, the bytes handed to \<open>serialPort->write\<close>, \<open>serialPort->clear\<close> and
  \<open>timeoutTimer->start\<close>.
\<close>

datatype event =
    StatusChanged string
  | ErrorMessage string message
  | TrackChanged quint8 quint16
  | HeadChanged quint8 bool
  | DriveChanged quint8
  | MountChanged int bool string quint16 string
  | SerialWrite "quint8 list"
  | SerialClear
  | TimerStart nat

text \<open>
  An index outside a C array is undefined behaviour. The model stops there with the
  name of the array and the index.
\<close>

datatype fault = IndexOutOfRange string int

text \<open>A \<open>QFile\<close>: its name, whether it is open, and the position of the next transfer.\<close>

record qfile =
  fileName :: string
  isOpen :: bool
  pos :: nat

text \<open>
  The members of class \<open>FDC\<close> (arrays as lists of their declared size), followed by
  the world the object talks to: the files on the host (\<open>disk\<close>, a name that cannot be
  opened maps to \<open>None\<close>), the largest size a file can grow to (\<open>diskLimit\<close>), the
  serial ports of the host with the baud rates each accepts (\<open>hostPorts\<close>), and the
  trace of events.
\<close>

record FDC =
  portOpen :: bool
  portName :: string
  portBaud :: int
  statPkts :: quint16
  outPkts :: quint16
  readPkts :: quint16
  writePkts :: quint16
  crcErrs :: quint16
  state :: fdc_state
  connected :: bool
  cmdBuf :: "quint8 list"
  tmpBuf :: "quint8 list"
  inBuf :: "quint8 list"
  outBuf :: "quint8 list"
  tmpBufIdx :: nat
  inBufIdx :: nat
  outBufIdx :: nat
  driveSize :: "quint8 list"
  maxTrack :: "quint16 list"
  curTrack :: "quint16 list"
  headStatus :: "quint8 list"
  driveSelected :: quint8
  mountStatus :: "bool list"
  driveFile :: "qfile list"
  disk :: "string \<Rightarrow> quint8 list option"
  diskLimit :: nat
  hostPorts :: "string \<Rightarrow> int list option"
  events :: "event list"

definition emit :: "event \<Rightarrow> FDC \<Rightarrow> FDC" where
  "emit e s = s\<lparr>events := events s @ [e]\<rparr>"

text \<open>All bytes handed to the serial port in a trace, in order.\<close>

fun sent :: "event list \<Rightarrow> quint8 list" where
  "sent [] = []"
| "sent (SerialWrite bs # es) = bs @ sent es"
| "sent (e # es) = sent es"

text \<open>How often the inactivity timer was (re)started in a trace.\<close>

fun timerStarts :: "event list \<Rightarrow> nat" where
  "timerStarts [] = 0"
| "timerStarts (TimerStart n # es) = Suc (timerStarts es)"
| "timerStarts (e # es) = timerStarts es"

subsection \<open>Bytes, words and the command frame\<close>

definition lo8 :: "quint16 \<Rightarrow> quint8" where
  "lo8 w = ucast w"

definition hi8 :: "quint16 \<Rightarrow> quint8" where
  "hi8 w = ucast (drop_bit 8 w)"

text \<open>\<open>lo | ((quint16) hi << 8)\<close>: a 16-bit word from its two bytes, low byte first.\<close>

definition word16 :: "quint8 \<Rightarrow> quint8 \<Rightarrow> quint16" where
  "word16 lo hi = ucast lo OR push_bit 8 (ucast hi)"

text \<open>\<open>memcpy(dst, src, n)\<close> on arrays: the first \<open>n\<close> bytes of \<open>dst\<close> are replaced.\<close>

definition memcpy :: "'a list \<Rightarrow> 'a list \<Rightarrow> nat \<Rightarrow> 'a list" where
  "memcpy dst src n = take n src @ drop n dst"

text \<open>
  \<open>fdc_command_t\<close> is a union over ten bytes: \<open>command\<close> is bytes 0..3,
  \<open>param1\<close>/\<open>rcode\<close> bytes 4..5, \<open>param2\<close>/\<open>rdata\<close> bytes 6..7 and \<open>checksum\<close>
  bytes 8..9, each word little-endian (the byte order of the hosts the program runs on).
  The accessors below read and write these fields in a byte array that holds a frame at
  its start.
\<close>

definition command :: "quint8 list \<Rightarrow> quint8 list" where
  "command b = take 4 b"

definition param1 :: "quint8 list \<Rightarrow> quint16" where
  "param1 b = word16 (b ! 4) (b ! 5)"

definition param2 :: "quint8 list \<Rightarrow> quint16" where
  "param2 b = word16 (b ! 6) (b ! 7)"

definition rcode :: "quint8 list \<Rightarrow> quint16" where
  "rcode b = word16 (b ! 4) (b ! 5)"

definition rdata :: "quint8 list \<Rightarrow> quint16" where
  "rdata b = word16 (b ! 6) (b ! 7)"

definition checksum :: "quint8 list \<Rightarrow> quint16" where
  "checksum b = word16 (b ! 8) (b ! 9)"

definition set_command :: "quint8 list \<Rightarrow> quint8 list \<Rightarrow> quint8 list" where
  "set_command c b = b[0 := c ! 0, 1 := c ! 1, 2 := c ! 2, 3 := c ! 3]"

definition set_rcode :: "quint16 \<Rightarrow> quint8 list \<Rightarrow> quint8 list" where
  "set_rcode v b = b[4 := lo8 v, 5 := hi8 v]"

definition set_rdata :: "quint16 \<Rightarrow> quint8 list \<Rightarrow> quint8 list" where
  "set_rdata v b = b[6 := lo8 v, 7 := hi8 v]"

definition set_checksum :: "quint16 \<Rightarrow> quint8 list \<Rightarrow> quint8 list" where
  "set_checksum v b = b[8 := lo8 v, 9 := hi8 v]"

definition tag :: "string \<Rightarrow> quint8 list" where
  "tag t = map of_char t"

subsection \<open>checkSum\<close>

text \<open>
  The loop of \<open>checkSum\<close>: every byte is added to a 16-bit accumulator, which wraps.
\<close>

primrec checkSum_loop :: "quint8 list \<Rightarrow> quint16 \<Rightarrow> quint16" where
  "checkSum_loop [] acc = acc"
| "checkSum_loop (b # bs) acc = checkSum_loop bs (acc + ucast b)"

text \<open>
  \<open>checkSum(data, n)\<close> reads \<open>data[0] .. data[n-1]\<close>. Every call of the source is
  made with \<open>n\<close> within the array (\<open>writeTrack\<close> has stopped on its index before it
  calls).
\<close>

definition checkSum :: "quint8 list \<Rightarrow> nat \<Rightarrow> quint16" where
  "checkSum data n = checkSum_loop (take n data) 0"

subsection \<open>The files of the host, as \<open>QFile\<close> uses them\<close>

text \<open>\<open>seek\<close> fails on a closed file and on a negative offset, and then moves nothing.\<close>

definition qfile_seek :: "int \<Rightarrow> qfile \<Rightarrow> qfile" where
  "qfile_seek off f = (if isOpen f \<and> 0 \<le> off then f\<lparr>pos := nat off\<rparr> else f)"

text \<open>
  \<open>read(buf, n)\<close>: the bytes from the position up to \<open>n\<close> of them or the end of the
  file; \<open>-1\<close> on a file that is not open. Returns the count, the bytes and the file.
\<close>

definition qfile_read ::
  "nat \<Rightarrow> qfile \<Rightarrow> (string \<Rightarrow> quint8 list option) \<Rightarrow> int \<times> quint8 list \<times> qfile" where
  "qfile_read n f dsk =
     (if isOpen f then
        (case dsk (fileName f) of
           None \<Rightarrow> (- 1, [], f)
         | Some c \<Rightarrow>
             (let got = take n (drop (pos f) c)
              in (int (length got), got, f\<lparr>pos := pos f + length got\<rparr>)))
      else (- 1, [], f))"

text \<open>
  \<open>write(buf, n)\<close>: the bytes go to the file at the position; a position past the end
  leaves a gap of zero bytes. Bytes that would take the file past \<open>diskLimit\<close> are not
  written: the count returned is then short, or \<open>-1\<close> when nothing could be written.
\<close>

definition qfile_write ::
  "quint8 list \<Rightarrow> qfile \<Rightarrow> (string \<Rightarrow> quint8 list option) \<Rightarrow> nat \<Rightarrow>
     int \<times> qfile \<times> (string \<Rightarrow> quint8 list option)" where
  "qfile_write bytes f dsk limit =
     (if isOpen f then
        (case dsk (fileName f) of
           None \<Rightarrow> (- 1, f, dsk)
         | Some c \<Rightarrow>
             (let k = min (length bytes) (limit - pos f)
              in if k = 0 then ((if bytes = [] then 0 else - 1), f, dsk)
                 else (int k, f\<lparr>pos := pos f + k\<rparr>,
                       dsk(fileName f \<mapsto>
                         take (pos f) c @ replicate (pos f - length c) 0
                           @ take k bytes @ drop (pos f + k) c))))
      else (- 1, f, dsk))"

text \<open>\<open>serialPort->write\<close>: the bytes leave only through an open port.\<close>

definition serialWrite :: "quint8 list \<Rightarrow> FDC \<Rightarrow> FDC" where
  "serialWrite bytes s = (if portOpen s then emit (SerialWrite bytes) s else s)"

definition startTimer :: "FDC \<Rightarrow> FDC" where
  "startTimer s = emit (TimerStart FDC_TIMEOUT) s"

subsection \<open>updateTrack\<close>

text \<open>
  \<open>track\<close> is a \<open>qint16\<close> and \<open>curTrack[drive]\<close> a \<open>quint16\<close>: the source compares
  them as \<open>int\<close>. The source tests only \<open>drive >= MAX_DRIVE\<close>; a negative \<open>drive\<close> would
  index below the arrays.
\<close>

definition updateTrack :: "int \<Rightarrow> int \<Rightarrow> FDC \<Rightarrow> fault + (int \<times> FDC)" where
  "updateTrack drive track s =
     (if drive \<ge> MAX_DRIVE then
        Inr (track, emit (ErrorMessage ''updateTrack'' (DriveOutOfRange drive)) s)
      else if drive < 0 then Inl (IndexOutOfRange ''driveFile'' drive)
      else
        (let d = nat drive;
             track' = (if isOpen (driveFile s ! d) then track else 0)
         in if track' \<noteq> uint (curTrack s ! d) then
              Inr (track',
                   emit (TrackChanged (word_of_int drive) (word_of_int track'))
                     (s\<lparr>curTrack := (curTrack s)[d := word_of_int track']\<rparr>))
            else Inr (track', s)))"

subsection \<open>The decoding shared by the READ and WRIT handlers\<close>

text \<open>
  \<open>qint8 driveNum = cmd->param1 >> 12\<close>, \<open>qint16 trackNum = cmd->param1 & 0x0fff\<close> and
  \<open>qint16 trackLen = cmd->param2\<close>: the last is read as a signed 16-bit value.
\<close>

definition driveNum_of :: "quint8 list \<Rightarrow> int" where
  "driveNum_of cmd = uint (drop_bit 12 (param1 cmd))"

definition trackNum_of :: "quint8 list \<Rightarrow> int" where
  "trackNum_of cmd = uint (param1 cmd AND 0x0fff)"

definition trackLen_of :: "quint8 list \<Rightarrow> int" where
  "trackLen_of cmd = sint (param2 cmd)"

text \<open>
  \<open>if (trackLen > sizeof(buf)) trackLen = sizeof(buf)\<close>: the comparison is made in
  \<open>size_t\<close>, so a negative \<open>trackLen\<close> counts as a huge one.
\<close>

definition clampLen :: "int \<Rightarrow> nat \<Rightarrow> int" where
  "clampLen trackLen bufsize =
     (if trackLen mod 2 ^ 64 > int bufsize then int bufsize else trackLen)"

subsection \<open>statResponse\<close>

text \<open>The loop that sets bit \<open>drive\<close> of \<open>rdata\<close> for every open drive file.\<close>

primrec mountBits :: "qfile list \<Rightarrow> nat \<Rightarrow> quint16 \<Rightarrow> quint16" where
  "mountBits [] drive acc = acc"
| "mountBits (f # fs) drive acc =
     mountBits fs (Suc drive) (acc OR (if isOpen f then push_bit drive 1 else 0))"

text \<open>\<open>cmd\<close> points to \<open>cmdBuf\<close>, which is changed in place.\<close>

definition statResponse :: "FDC \<Rightarrow> bool \<times> FDC" where
  "statResponse s =
     (let c1 = set_rdata (mountBits (take (nat MAX_DRIVE) (driveFile s)) 0 0) (cmdBuf s);
          c2 = set_rcode STAT_OK c1;
          c3 = set_checksum (checkSum c2 CMD_LEN) c2;
          s1 = serialWrite (take CMDBUF_SIZE c3) (s\<lparr>cmdBuf := c3\<rparr>);
          s2 = startTimer s1;
          s3 = (if connected s2 then s2
                else emit (StatusChanged ''Connected'') (s2\<lparr>connected := True\<rparr>))
      in (False, s3\<lparr>outPkts := outPkts s3 + 1\<rparr>))"

subsection \<open>readTrack\<close>

definition readTrack :: "FDC \<Rightarrow> fault + (bool \<times> FDC)" where
  "readTrack s =
     (let cmd = cmdBuf s;
          driveNum = driveNum_of cmd;
          trackNum = trackNum_of cmd;
          trackLen = trackLen_of cmd
      in if driveNum \<ge> MAX_DRIVE then
           Inr (True, emit (ErrorMessage ''READ'' (DriveOutOfRange driveNum)) s)
         else
           (let trackLen = clampLen trackLen TRKBUF_BYTES
            in case updateTrack driveNum trackNum s of
                 Inl e \<Rightarrow> Inl e
               | Inr (trackNum, s1) \<Rightarrow>
                   (let d = nat driveNum;
                        f1 = qfile_seek (trackNum * trackLen) (driveFile s1 ! d);
                        (bytesRead, got, f2) = qfile_read (nat trackLen) f1 (disk s1);
                        ob = memcpy (outBuf s1) got (length got);
                        sum = (if bytesRead \<noteq> trackLen then 0
                               else checkSum ob (nat trackLen));
                        s2 = s1\<lparr>driveFile := (driveFile s1)[d := f2], outBuf := ob\<rparr>;
                        s3 = serialWrite (take (nat trackLen) ob) s2;
                        s4 = serialWrite [lo8 sum, hi8 sum] s3;
                        s5 = s4\<lparr>outPkts := outPkts s4 + 1\<rparr>
                    in Inr (False, startTimer s5))))"

subsection \<open>writeResponse\<close>

definition writeResponse :: "FDC \<Rightarrow> bool \<times> FDC" where
  "writeResponse s =
     (let cmd = cmdBuf s;
          driveNum = driveNum_of cmd
      in if driveNum \<ge> MAX_DRIVE then
           (True, emit (ErrorMessage ''WRIT'' (DriveOutOfRange driveNum)) s)
         else
           (let o1 = memcpy (outBuf s) cmd CMD_LEN;
                o2 = set_rcode (if isOpen (driveFile s ! nat driveNum) then STAT_OK
                                else STAT_NOT_READY) o1;
                o3 = set_checksum (checkSum o2 CMD_LEN) o2;
                s1 = serialWrite (take CMDBUF_SIZE o3) (s\<lparr>outBuf := o3\<rparr>)
            in (False, startTimer s1)))"

subsection \<open>writeTrack\<close>

text \<open>
  The end of \<open>writeTrack\<close>, common to its three outcomes: the frame in \<open>cmdBuf\<close> gets the
  tag \<open>WSTA\<close> and a fresh checksum, is copied to \<open>outBuf\<close> and sent.
\<close>

definition wstaResponse :: "quint16 \<Rightarrow> FDC \<Rightarrow> bool \<times> FDC" where
  "wstaResponse rc s =
     (let c1 = set_rcode rc (cmdBuf s);
          c2 = set_command (tag ''WSTA'') c1;
          c3 = set_checksum (checkSum c2 CMD_LEN) c2;
          ob = memcpy (outBuf s) c3 CMDBUF_SIZE;
          s1 = serialWrite (take CMDBUF_SIZE ob) (s\<lparr>cmdBuf := c3, outBuf := ob\<rparr>)
      in (rcode c3 \<noteq> STAT_OK, s1\<lparr>outPkts := outPkts s1 + 1\<rparr>))"

text \<open>
  \<open>inBuf[trackLen]\<close> and \<open>inBuf[trackLen+1]\<close> are read first, before any test of
  \<open>trackLen\<close> or of the drive.
\<close>

definition writeTrack :: "FDC \<Rightarrow> fault + (bool \<times> FDC)" where
  "writeTrack s =
     (let cmd = cmdBuf s;
          driveNum = driveNum_of cmd;
          trackNum = trackNum_of cmd;
          trackLen = trackLen_of cmd
      in if trackLen < 0 \<or> trackLen \<ge> int TRKBUF_BYTES then
           Inl (IndexOutOfRange ''inBuf'' trackLen)
         else if trackLen + 1 \<ge> int TRKBUF_BYTES then
           Inl (IndexOutOfRange ''inBuf'' (trackLen + 1))
         else
           (let sum = word16 (inBuf s ! nat trackLen) (inBuf s ! nat (trackLen + 1))
            in if driveNum \<ge> MAX_DRIVE then
                 Inr (True, emit (ErrorMessage ''WRIT'' (DriveOutOfRange driveNum)) s)
               else if isOpen (driveFile s ! nat driveNum) = False then
                 Inr (wstaResponse STAT_NOT_READY s)
               else if sum \<noteq> checkSum (inBuf s) (nat trackLen) then
                 Inr (wstaResponse STAT_CHECKSUM_ERR (s\<lparr>crcErrs := crcErrs s + 1\<rparr>))
               else
                 (let trackLen = clampLen trackLen TRKBUF_BYTES
                  in case updateTrack driveNum trackNum s of
                       Inl e \<Rightarrow> Inl e
                     | Inr (trackNum, s1) \<Rightarrow>
                         (let d = nat driveNum;
                              f1 = qfile_seek (trackNum * trackLen) (driveFile s1 ! d);
                              (bytesWritten, f2, dsk) =
                                 qfile_write (take (nat trackLen) (inBuf s1)) f1
                                   (disk s1) (diskLimit s1);
                              s2 = s1\<lparr>driveFile := (driveFile s1)[d := f2], disk := dsk\<rparr>
                          in Inr (wstaResponse
                                    (if bytesWritten \<noteq> trackLen then STAT_WRITE_ERR
                                     else STAT_OK) s2)))))"

subsection \<open>mountDisk and unmountDisk\<close>

text \<open>
  Neither function tests \<open>drive\<close> before it indexes \<open>curTrack\<close> and \<open>driveFile\<close> with it.
  \<open>open(ReadWrite)\<close> succeeds on the names the host can open.
\<close>

definition geometry :: "nat \<Rightarrow> quint16 \<times> string" where
  "geometry filesize =
     (if filesize = 76800 then (34, ''75K'')
      else if filesize = 337664 then (76, ''330K'')
      else if filesize = 8978432 then (2047, ''8MB'')
      else (2047, ''???''))"

definition mountDisk :: "int \<Rightarrow> string \<Rightarrow> FDC \<Rightarrow> fault + (bool \<times> FDC)" where
  "mountDisk drive filename s =
     (if drive < 0 \<or> drive \<ge> MAX_DRIVE then Inl (IndexOutOfRange ''curTrack'' drive)
      else
        (let d = nat drive;
             f0 = driveFile s ! d;
             f1 = (if isOpen f0 then f0\<lparr>isOpen := False\<rparr> else f0);
             f2 = f1\<lparr>fileName := filename\<rparr>
         in case disk s filename of
              None \<Rightarrow> Inr (False, s\<lparr>driveFile := (driveFile s)[d := f2]\<rparr>)
            | Some c \<Rightarrow>
                (let f3 = f2\<lparr>isOpen := True, pos := 0\<rparr>;
                     (mt, label) = geometry (length c);
                     s1 = s\<lparr>driveFile := (driveFile s)[d := f3],
                            maxTrack := (maxTrack s)[d := mt]\<rparr>
                 in case updateTrack drive 0 s1 of
                      Inl e \<Rightarrow> Inl e
                    | Inr (t, s2) \<Rightarrow>
                        Inr (True, emit (MountChanged drive True filename
                                           (maxTrack s2 ! d) label) s2))))"

definition unmountDisk :: "int \<Rightarrow> FDC \<Rightarrow> fault + FDC" where
  "unmountDisk drive s =
     (if drive < 0 \<or> drive \<ge> MAX_DRIVE then Inl (IndexOutOfRange ''curTrack'' drive)
      else
        (let d = nat drive
         in if isOpen (driveFile s ! d) then
              (case updateTrack drive 0 s of
                 Inl e \<Rightarrow> Inl e
               | Inr (t, s1) \<Rightarrow>
                   Inr (emit (MountChanged drive False [] 0 [])
                          (s1\<lparr>driveFile :=
                                (driveFile s1)[d := (driveFile s1 ! d)\<lparr>isOpen := False\<rparr>]\<rparr>)))
            else Inr (emit (MountChanged drive False [] 0 []) s)))"

subsection \<open>The serial port: openPort, closePort, setBaud\<close>

definition closePort :: "FDC \<Rightarrow> FDC" where
  "closePort s =
     (if portOpen s then
        emit (StatusChanged ''Offline'') (s\<lparr>portOpen := False, connected := False\<rparr>)
      else s)"

text \<open>
  \<open>setBaudRate\<close> on a closed port only stores the rate; on an open port it succeeds for
  the rates the port accepts.
\<close>

definition setBaud :: "int \<Rightarrow> FDC \<Rightarrow> bool \<times> FDC" where
  "setBaud baudRate s =
     (let r = (if portOpen s then
                 (case hostPorts s (portName s) of
                    None \<Rightarrow> False
                  | Some rates \<Rightarrow> baudRate \<in> set rates)
               else True)
      in if r then (True, s\<lparr>portBaud := baudRate\<rparr>)
         else (False,
               emit (StatusChanged ''Offline'')
                 (emit (ErrorMessage ''COM Port Error''
                          (CouldNotSetBaud (portName s) baudRate)) s)))"

definition openPort :: "string \<Rightarrow> int \<Rightarrow> FDC \<Rightarrow> bool \<times> FDC" where
  "openPort name baudRate s =
     (let s1 = (if portOpen s then closePort s else s);
          s2 = s1\<lparr>portName := name\<rparr>
      in case hostPorts s2 name of
           None \<Rightarrow> (False, s2)
         | Some rates \<Rightarrow>
             (let (r, s3) = setBaud baudRate (s2\<lparr>portOpen := True\<rparr>)
              in if r = False then (False, closePort s3)
                 else (True, emit (StatusChanged ''Online'') (s3\<lparr>connected := True\<rparr>))))"

subsection \<open>timeoutSlot\<close>

definition timeoutSlot :: "FDC \<Rightarrow> FDC" where
  "timeoutSlot s =
     (let s1 =
        (if portOpen s then
           (let s2 = (emit SerialClear s)\<lparr>tmpBufIdx := 0\<rparr>
            in if connected s2 then
                 emit (StatusChanged ''Communications timeout'') (s2\<lparr>connected := False\<rparr>)
               else s2)
         else emit (StatusChanged ''Offline'') s)
      in s1\<lparr>state := STATE_CMD\<rparr>)"

subsection \<open>readData\<close>

text \<open>
  The STAT branch of \<open>readData\<close>. \<open>headStatus\<close> has \<open>MAX_DRIVE\<close> entries; the branch
  indexes it with \<open>driveSelected\<close> and with \<open>newDrive\<close> after the tests written in the
  source, which compare with \<open><=\<close>.
\<close>

definition statCommand :: "FDC \<Rightarrow> fault + FDC" where
  "statCommand s0 =
     (let s = s0\<lparr>statPkts := statPkts s0 + 1\<rparr>;
          cmd = cmdBuf s;
          newDrive = (ucast (param1 cmd AND 0xff) :: quint8);
          head = drop_bit 8 (param1 cmd);
          old = uint (driveSelected s);
          r1 =
            (if uint newDrive \<le> MAX_DRIVE \<and> driveSelected s \<noteq> newDrive then
               (if old \<ge> MAX_DRIVE then Inl (IndexOutOfRange ''headStatus'' old)
                else
                  (let s1 =
                     (if headStatus s ! nat old \<noteq> 0 then
                        emit (HeadChanged (driveSelected s) False)
                          (s\<lparr>headStatus := (headStatus s)[nat old := 0]\<rparr>)
                      else s)
                   in Inr (emit (DriveChanged newDrive) s1)))
             else Inr s)
      in case r1 of
           Inl e \<Rightarrow> Inl e
         | Inr s2 \<Rightarrow>
             (let r2 =
                (if uint newDrive \<le> MAX_DRIVE then
                   (if uint newDrive \<ge> MAX_DRIVE then
                      Inl (IndexOutOfRange ''headStatus'' (uint newDrive))
                    else
                      (let n = unat newDrive;
                           s3 =
                             (if uint (headStatus s2 ! n) \<noteq> uint head then
                                emit (HeadChanged newDrive (ucast head \<noteq> (0 :: quint8)))
                                  (s2\<lparr>headStatus := (headStatus s2)[n := ucast head]\<rparr>)
                              else s2)
                       in case updateTrack (uint newDrive) (sint (param2 cmd)) s3 of
                            Inl e \<Rightarrow> Inl e
                          | Inr (t, s4) \<Rightarrow> Inr s4))
                 else Inr s2)
              in case r2 of
                   Inl e \<Rightarrow> Inl e
                 | Inr s5 \<Rightarrow> Inr (snd (statResponse (s5\<lparr>driveSelected := newDrive\<rparr>)))))"

text \<open>
  The command branch of \<open>readData\<close>, entered when \<open>tmpBufIdx\<close> is exactly
  \<open>CMDBUF_SIZE\<close>.
\<close>

definition commandFrame :: "FDC \<Rightarrow> fault + FDC" where
  "commandFrame s0 =
     (let s = s0\<lparr>cmdBuf := memcpy (cmdBuf s0) (tmpBuf s0) CMDBUF_SIZE\<rparr>;
          cmd = cmdBuf s;
          r =
            (if checksum cmd = checkSum cmd CMD_LEN then
               (if command cmd = tag ''STAT'' then statCommand s
                else if command cmd = tag ''READ'' then
                  (case readTrack (s\<lparr>readPkts := readPkts s + 1\<rparr>) of
                     Inl e \<Rightarrow> Inl e
                   | Inr (b, s1) \<Rightarrow> Inr s1)
                else if command cmd = tag ''WRIT'' then
                  (let s1 = snd (writeResponse s)
                   in Inr (s1\<lparr>writePkts := writePkts s1 + 1, state := STATE_WRIT\<rparr>))
                else Inr s)
             else Inr (s\<lparr>crcErrs := crcErrs s + 1\<rparr>))
      in case r of
           Inl e \<Rightarrow> Inl e
         | Inr s2 \<Rightarrow> Inr (s2\<lparr>tmpBufIdx := 0\<rparr>))"

text \<open>
  The payload branch of \<open>readData\<close>, entered when \<open>tmpBufIdx\<close> is exactly
  \<open>TRKBUF_SIZE + CRC_LEN\<close>.
\<close>

definition payloadFrame :: "FDC \<Rightarrow> fault + FDC" where
  "payloadFrame s0 =
     (let s = s0\<lparr>inBuf := memcpy (inBuf s0) (tmpBuf s0) TRKBUF_BYTES\<rparr>
      in case writeTrack s of
           Inl e \<Rightarrow> Inl e
         | Inr (b, s1) \<Rightarrow> Inr (s1\<lparr>tmpBufIdx := 0, state := STATE_CMD\<rparr>))"

text \<open>
  \<open>readData\<close> with \<open>avail\<close> the bytes waiting in the port: they are all read to
  \<open>tmpBuf\<close> at \<open>tmpBufIdx\<close> when they fit, and otherwise all dropped. The source
  computes \<open>sizeof(tmpBuf) - tmpBufIdx\<close> in \<open>size_t\<close>; \<open>tmpBufIdx\<close> never exceeds
  \<open>sizeof(tmpBuf)\<close> (lemma \<open>readData_tmpBufIdx\<close> below), so the difference does not wrap.
\<close>

definition readData :: "quint8 list \<Rightarrow> FDC \<Rightarrow> fault + FDC" where
  "readData avail s0 =
     (if length avail \<le> TRKBUF_BYTES - tmpBufIdx s0 then
        (let r = length avail;
             s1 = s0\<lparr>tmpBuf := take (tmpBufIdx s0) (tmpBuf s0) @ avail
                                   @ drop (tmpBufIdx s0 + r) (tmpBuf s0)\<rparr>;
             s = (if r \<noteq> 0 then s1\<lparr>tmpBufIdx := tmpBufIdx s1 + r\<rparr> else s1)
         in case state s of
              STATE_CMD \<Rightarrow>
                if tmpBufIdx s = CMDBUF_SIZE then commandFrame s else Inr s
            | STATE_WRIT \<Rightarrow>
                if tmpBufIdx s = TRKBUF_SIZE + CRC_LEN then payloadFrame s else Inr s)
      else
        Inr (emit (ErrorMessage ''readData'' (Text ''tmpBuf Full''))
               ((emit SerialClear s0)\<lparr>tmpBufIdx := 0\<rparr>)))"

subsection \<open>The constructor\<close>

text \<open>
  The constructor leaves the four buffers as it finds them: \<open>junk\<close> is the byte they
  hold at first. The rest of the arguments is the host the object is created on.
\<close>

definition FDC_new ::
  "(string \<Rightarrow> quint8 list option) \<Rightarrow> nat \<Rightarrow> (string \<Rightarrow> int list option) \<Rightarrow> quint8 \<Rightarrow> FDC" where
  "FDC_new dsk limit ports junk =
     \<lparr> portOpen = False, portName = [], portBaud = 0,
       statPkts = 0, outPkts = 0, readPkts = 0, writePkts = 0, crcErrs = 0,
       state = STATE_CMD, connected = False,
       cmdBuf = replicate CMDBUF_SIZE junk,
       tmpBuf = replicate TRKBUF_BYTES junk,
       inBuf = replicate TRKBUF_BYTES junk,
       outBuf = replicate TRKBUF_BYTES junk,
       tmpBufIdx = 0, inBufIdx = 0, outBufIdx = 0,
       driveSize = replicate (nat MAX_DRIVE) 0,
       maxTrack = replicate (nat MAX_DRIVE) 77,
       curTrack = replicate (nat MAX_DRIVE) 0,
       headStatus = replicate (nat MAX_DRIVE) 0,
       driveSelected = 0xff,
       mountStatus = replicate (nat MAX_DRIVE) False,
       driveFile = replicate (nat MAX_DRIVE) \<lparr>fileName = [], isOpen = False, pos = 0\<rparr>,
       disk = dsk, diskLimit = limit, hostPorts = ports,
       events = [TimerStart FDC_TIMEOUT] \<rparr>"

subsection \<open>States whose arrays have their declared sizes\<close>

definition sized :: "FDC \<Rightarrow> bool" where
  "sized s =
     (length (cmdBuf s) = CMDBUF_SIZE \<and> length (tmpBuf s) = TRKBUF_BYTES
      \<and> length (inBuf s) = TRKBUF_BYTES \<and> length (outBuf s) = TRKBUF_BYTES
      \<and> length (maxTrack s) = nat MAX_DRIVE \<and> length (curTrack s) = nat MAX_DRIVE
      \<and> length (headStatus s) = nat MAX_DRIVE \<and> length (driveFile s) = nat MAX_DRIVE)"

subsection \<open>A controller, a host and some states, for examples\<close>

text \<open>
  A command frame as the controller builds it: the tag, the two parameters and the sum
  of these eight bytes.
\<close>

definition frame :: "string \<Rightarrow> quint16 \<Rightarrow> quint16 \<Rightarrow> quint8 list" where
  "frame t p1 p2 =
     (let b = tag t @ [lo8 p1, hi8 p1, lo8 p2, hi8 p2]
      in b @ [lo8 (checkSum b CMD_LEN), hi8 (checkSum b CMD_LEN)])"

text \<open>
  A host with a minidisk image of 76800 zero bytes, a file of three bytes, and one
  serial port.
\<close>

definition exDisk :: "string \<Rightarrow> quint8 list option" where
  "exDisk name =
     (if name = ''a.dsk'' then Some (replicate 76800 0)
      else if name = ''short.dsk'' then Some [1, 2, 3]
      else None)"

definition exPorts :: "string \<Rightarrow> int list option" where
  "exPorts name = (if name = ''COM1'' then Some [230400, 403200, 460800] else None)"

text \<open>The object as constructed, then with the port open, then with drive 0 mounted.\<close>

definition exNew :: FDC where
  "exNew = FDC_new exDisk 100000 exPorts 0xE5"

definition exOnline :: FDC where
  "exOnline = snd (openPort ''COM1'' 403200 exNew)"

definition exMounted :: FDC where
  "exMounted =
     (case mountDisk 0 ''a.dsk'' exOnline of Inr (b, s) \<Rightarrow> s | Inl e \<Rightarrow> exOnline)"

text \<open>After a WRIT command for drive 0, track 10 and a track length of 137.\<close>

definition exWrit :: FDC where
  "exWrit =
     (case readData (frame ''WRIT'' 0x000A 137) exMounted of
        Inr s \<Rightarrow> s | Inl e \<Rightarrow> exMounted)"

text \<open>
  Payloads for that command: 137 bytes and their sum, as the controller sends them;
  the same followed by zero bytes up to the size of the buffer; and the last with a
  wrong trailer.
\<close>

definition payload139 :: "quint8 list" where
  "payload139 = replicate 137 1 @ [137, 0]"

definition payloadOK :: "quint8 list" where
  "payloadOK = replicate 137 1 @ [137, 0] @ replicate 4247 0"

definition payloadBad :: "quint8 list" where
  "payloadBad = replicate 137 1 @ [0, 0] @ replicate 4247 0"

text \<open>The state a step ends in, for steps that end without a fault.\<close>

definition stateOf :: "fault + FDC \<Rightarrow> FDC \<Rightarrow> FDC" where
  "stateOf r s = (case r of Inr s' \<Rightarrow> s' | Inl e \<Rightarrow> s)"

definition stateOf2 :: "fault + (bool \<times> FDC) \<Rightarrow> FDC \<Rightarrow> FDC" where
  "stateOf2 r s = (case r of Inr (b, s') \<Rightarrow> s' | Inl e \<Rightarrow> s)"

text \<open>After the 139 bytes, and after the bytes that fill the buffer.\<close>

definition exWrit139 :: FDC where
  "exWrit139 = stateOf (readData payload139 exWrit) exWrit"

definition exWritten :: FDC where
  "exWritten = stateOf (readData payloadOK exWrit) exWrit"

text \<open>
  The 137 bytes with a wrong trailer, as the controller sends them (139 bytes), and the
  state after them.
\<close>

definition payloadBad139 :: "quint8 list" where
  "payloadBad139 = replicate 137 1 @ [0, 0]"

definition exWritBad139 :: FDC where
  "exWritBad139 = stateOf (readData payloadBad139 exWrit) exWrit"

text \<open>After a WRIT command for drive 0 and track 10 whose \<open>param2\<close> is 5000.\<close>

definition exWrit5000 :: FDC where
  "exWrit5000 = stateOf (readData (frame ''WRIT'' 0x000A 5000) exMounted) exMounted"

text \<open>
  After a READ command for drive 0, track 5 and length 137; and after a second
  \<open>mountDisk\<close> on drive 0, with a name the host cannot open.
\<close>

definition exRead5 :: FDC where
  "exRead5 = stateOf (readData (frame ''READ'' 0x0005 137) exMounted) exMounted"

definition exRemount :: FDC where
  "exRemount = stateOf2 (mountDisk 0 ''missing.dsk'' exRead5) exRead5"

text \<open>
  Drive 1 mounted with the file of three bytes; and after a READ command for drive 1,
  track 0 and length 5.
\<close>

definition exShort :: FDC where
  "exShort = stateOf2 (mountDisk 1 ''short.dsk'' exOnline) exOnline"

definition exShortRead :: FDC where
  "exShortRead = stateOf (readData (frame ''READ'' 0x1000 5) exShort) exShort"

subsection \<open>The invariant on the current track\<close>

text \<open>Every drive is mounted or has \<open>curTrack\<close> zero.\<close>

definition trackInv :: "FDC \<Rightarrow> bool" where
  "trackInv s = list_all (\<lambda>(f, t). isOpen f \<or> t = 0) (zip (driveFile s) (curTrack s))"

section \<open>Properties\<close>

subsection \<open>Words, checksums and frames\<close>

lemma word16_lo8_hi8: "word16 (lo8 v) (hi8 v) = v"
  unfolding word16_def lo8_def hi8_def
  by (rule bit_word_eqI) (auto simp: bit_simps)

lemma lo8_word16: "lo8 (word16 a b) = a"
  unfolding word16_def lo8_def
  by (rule bit_word_eqI) (auto simp: bit_simps)

lemma hi8_word16: "hi8 (word16 a b) = b"
  unfolding word16_def hi8_def
  by (rule bit_word_eqI) (auto simp: bit_simps dest: bit_imp_le_length)

lemma checkSum_loop_append:
  "checkSum_loop (xs @ ys) acc = checkSum_loop ys (checkSum_loop xs acc)"
  by (induction xs arbitrary: acc) simp_all

lemma checkSum_loop_replicate0: "checkSum_loop (replicate n 0) acc = acc"
  by (induction n) simp_all

lemma length_set_fields:
  "length (set_command c b) = length b"
  "length (set_rcode v b) = length b"
  "length (set_rdata v b) = length b"
  "length (set_checksum v b) = length b"
  by (simp_all add: set_command_def set_rcode_def set_rdata_def set_checksum_def)

lemma take4_update:
  assumes "4 \<le> length b"
  shows "take 4 (b[0 := a0, Suc 0 := a1, 2 := a2, 3 := a3]) = [a0, a1, a2, a3]"
proof -
  from assms obtain x0 x1 x2 x3 r where "b = x0 # x1 # x2 # x3 # r"
    by (auto simp: numeral_eq_Suc Suc_le_length_iff)
  then show ?thesis by (simp add: numeral_eq_Suc)
qed

lemma command_set_command:
  "4 \<le> length b \<Longrightarrow> command (set_command (tag ''WSTA'') b) = tag ''WSTA''"
  by (simp add: command_def set_command_def take4_update tag_def)

lemma command_set_other:
  "command (set_rcode v b) = command b"
  "command (set_rdata v b) = command b"
  "command (set_checksum v b) = command b"
  by (simp_all add: command_def set_rcode_def set_rdata_def set_checksum_def)

lemma rcode_set_rcode: "6 \<le> length b \<Longrightarrow> rcode (set_rcode v b) = v"
  by (simp add: rcode_def set_rcode_def word16_lo8_hi8)

lemma rcode_set_other:
  "rcode (set_command c b) = rcode b"
  "rcode (set_rdata v b) = rcode b"
  "rcode (set_checksum v b) = rcode b"
  by (simp_all add: rcode_def set_command_def set_rdata_def set_checksum_def)

lemma rdata_set_rdata: "8 \<le> length b \<Longrightarrow> rdata (set_rdata v b) = v"
  by (simp add: rdata_def set_rdata_def word16_lo8_hi8)

lemma rdata_set_other:
  "rdata (set_command c b) = rdata b"
  "rdata (set_rcode v b) = rdata b"
  "rdata (set_checksum v b) = rdata b"
  by (simp_all add: rdata_def set_command_def set_rcode_def set_checksum_def)

lemma checksum_set_checksum: "10 \<le> length b \<Longrightarrow> checksum (set_checksum v b) = v"
  by (simp add: checksum_def set_checksum_def word16_lo8_hi8)

lemma checkSum_set_checksum: "checkSum (set_checksum v b) CMD_LEN = checkSum b CMD_LEN"
  by (simp add: checkSum_def set_checksum_def CMD_LEN_def)

text \<open>The fields of a frame are those of its first ten bytes.\<close>

lemma fields_take:
  "10 \<le> n \<Longrightarrow> command (take n b) = command b"
  "10 \<le> n \<Longrightarrow> rcode (take n b) = rcode b"
  "10 \<le> n \<Longrightarrow> rdata (take n b) = rdata b"
  "10 \<le> n \<Longrightarrow> checksum (take n b) = checksum b"
  "10 \<le> n \<Longrightarrow> checkSum (take n b) CMD_LEN = checkSum b CMD_LEN"
  by (simp_all add: command_def rcode_def rdata_def checksum_def checkSum_def CMD_LEN_def min_def)

lemma wstaResponse_sent:
  assumes "portOpen s" and "CMDBUF_SIZE \<le> length (cmdBuf s)"
  shows "\<exists>f. events (snd (wstaResponse rc s)) = events s @ [SerialWrite f]
            \<and> length f = CMDBUF_SIZE \<and> command f = tag ''WSTA'' \<and> rcode f = rc
            \<and> rdata f = rdata (cmdBuf s) \<and> checksum f = checkSum f CMD_LEN"
  using assms
  by (simp add: wstaResponse_def Let_def serialWrite_def emit_def memcpy_def
      CMDBUF_SIZE_def CMD_LEN_def CRC_LEN_def length_set_fields
      command_set_command command_set_other rcode_set_rcode rcode_set_other rdata_set_other
      checksum_set_checksum checkSum_set_checksum [unfolded CMD_LEN_def]
      fields_take [unfolded CMD_LEN_def])

lemma wstaResponse_frame:
  "disk (snd (wstaResponse rc s)) = disk s"
  "crcErrs (snd (wstaResponse rc s)) = crcErrs s"
  "driveFile (snd (wstaResponse rc s)) = driveFile s"
  "curTrack (snd (wstaResponse rc s)) = curTrack s"
  "inBuf (snd (wstaResponse rc s)) = inBuf s"
  "tmpBuf (snd (wstaResponse rc s)) = tmpBuf s"
  "portOpen (snd (wstaResponse rc s)) = portOpen s"
  "diskLimit (snd (wstaResponse rc s)) = diskLimit s"
  "length (cmdBuf (snd (wstaResponse rc s))) = length (cmdBuf s)"
  by (simp_all add: wstaResponse_def Let_def serialWrite_def emit_def length_set_fields)


subsection \<open>The framer\<close>

lemma readData_tmpBufIdx:
  assumes "tmpBufIdx s \<le> TRKBUF_BYTES" and "readData avail s = Inr s'"
  shows "tmpBufIdx s' \<le> TRKBUF_BYTES"
proof (cases "length avail \<le> TRKBUF_BYTES - tmpBufIdx s")
  case False
  with assms(2) show ?thesis
    by (auto simp add: readData_def emit_def)
next
  case True
  with assms(1) have le: "tmpBufIdx s + length avail \<le> TRKBUF_BYTES"
    by linarith
  show ?thesis
  proof (cases "state s")
    case STATE_CMD
    with True assms(2) le show ?thesis
      by (auto simp add: readData_def Let_def commandFrame_def
          split: if_splits sum.splits)
  next
    case STATE_WRIT
    with True assms(2) le show ?thesis
      by (auto simp add: readData_def Let_def payloadFrame_def
          split: if_splits sum.splits prod.splits)
  qed
qed

lemma readData_payload:
  assumes "state s = STATE_WRIT" and "sized s"
    and "tmpBufIdx s + length avail = TRKBUF_BYTES"
    and "payload = take (tmpBufIdx s) (tmpBuf s) @ avail"
  shows "readData avail s =
     (case writeTrack (s\<lparr>tmpBuf := payload, tmpBufIdx := TRKBUF_BYTES, inBuf := payload\<rparr>) of
        Inl e \<Rightarrow> Inl e
      | Inr (b, s1) \<Rightarrow> Inr (s1\<lparr>tmpBufIdx := 0, state := STATE_CMD\<rparr>))"
proof -
  have lens: "length (tmpBuf s) = TRKBUF_BYTES" "length (inBuf s) = TRKBUF_BYTES"
    using assms(2) by (simp_all add: sized_def)
  have len: "length payload = TRKBUF_BYTES"
    using lens assms(3,4) by simp
  have rd: "readData avail s = payloadFrame (s\<lparr>tmpBuf := payload, tmpBufIdx := TRKBUF_BYTES\<rparr>)"
  proof (cases "avail = []")
    case True
    with lens assms(3,4) have "s\<lparr>tmpBuf := payload, tmpBufIdx := TRKBUF_BYTES\<rparr>
        = s\<lparr>tmpBuf := tmpBuf s, tmpBufIdx := tmpBufIdx s\<rparr>"
      by simp
    then have same: "s\<lparr>tmpBuf := payload, tmpBufIdx := TRKBUF_BYTES\<rparr> = s"
      by simp
    show ?thesis
      unfolding same using True assms(1,3)
      by (simp add: readData_def Let_def TRKBUF_BYTES_def)
  next
    case False
    have fits: "length avail \<le> TRKBUF_BYTES - tmpBufIdx s"
      using assms(3) by linarith
    have drp: "drop (tmpBufIdx s + length avail) (tmpBuf s) = []"
      using lens assms(3) by simp
    show ?thesis
      using False assms(1,3,4) fits drp
      by (simp add: readData_def Let_def TRKBUF_BYTES_def)
  qed
  show ?thesis
    using len lens by (simp add: rd payloadFrame_def memcpy_def)
qed

lemma tag_distinct:
  "tag ''READ'' \<noteq> tag ''STAT''" "tag ''WRIT'' \<noteq> tag ''STAT''" "tag ''WRIT'' \<noteq> tag ''READ''"
  by (simp_all add: tag_def)

lemma readData_READ:
  assumes "state s = STATE_CMD" and "sized s" and "tmpBufIdx s = 0"
    and "length fr = CMDBUF_SIZE" and "command fr = tag ''READ''"
    and "checksum fr = checkSum fr CMD_LEN"
  shows "readData fr s =
     (case readTrack (s\<lparr>tmpBuf := fr @ drop CMDBUF_SIZE (tmpBuf s), tmpBufIdx := CMDBUF_SIZE,
                         cmdBuf := fr, readPkts := readPkts s + 1\<rparr>) of
        Inl e \<Rightarrow> Inl e
      | Inr (b, s1) \<Rightarrow> Inr (s1\<lparr>tmpBufIdx := 0\<rparr>))"
proof -
  have lens: "length (tmpBuf s) = TRKBUF_BYTES" "length (cmdBuf s) = CMDBUF_SIZE"
    using assms(2) by (simp_all add: sized_def)
  have fr10: "length fr = 10"
    using assms(4) by (simp add: CMDBUF_SIZE_def CMD_LEN_def CRC_LEN_def)
  have rd: "readData fr s = commandFrame (s\<lparr>tmpBuf := fr @ drop CMDBUF_SIZE (tmpBuf s),
      tmpBufIdx := CMDBUF_SIZE\<rparr>)"
    using assms(1,3,4) fr10
    by (simp add: readData_def Let_def TRKBUF_BYTES_def TRKBUF_SIZE_def CRC_LEN_def CMDBUF_SIZE_def CMD_LEN_def)
  show ?thesis
    unfolding rd using assms(4,5,6) lens tag_distinct
    by (simp add: commandFrame_def Let_def memcpy_def split: sum.splits)
qed

subsection \<open>The READ handler\<close>

lemma updateTrack_mounted:
  assumes "0 \<le> drive" and "drive < MAX_DRIVE" and "isOpen (driveFile s ! nat drive)"
  shows "updateTrack drive track s =
     Inr (track,
          if track \<noteq> uint (curTrack s ! nat drive) then
            emit (TrackChanged (word_of_int drive) (word_of_int track))
              (s\<lparr>curTrack := (curTrack s)[nat drive := word_of_int track]\<rparr>)
          else s)"
  using assms by (simp add: updateTrack_def Let_def)

lemma driveNum_of_nonneg: "0 \<le> driveNum_of cmd"
  by (simp add: driveNum_of_def)

lemma sent_append: "sent (xs @ ys) = sent xs @ sent ys"
  by (induction xs rule: sent.induct) simp_all

lemma readTrack_mounted:
  assumes "portOpen s"
    and "driveNum_of (cmdBuf s) < MAX_DRIVE"
    and "isOpen (driveFile s ! nat (driveNum_of (cmdBuf s)))"
    and "n = clampLen (trackLen_of (cmdBuf s)) TRKBUF_BYTES"
    and "qfile_read (nat n) (qfile_seek (trackNum_of (cmdBuf s) * n)
            (driveFile s ! nat (driveNum_of (cmdBuf s)))) (disk s) = (bytesRead, got, f2)"
    and "ob = got @ drop (length got) (outBuf s)"
    and "csum = (if bytesRead \<noteq> n then 0 else checkSum ob (nat n))"
  shows "\<exists>s'. readTrack s = Inr (False, s')
           \<and> sent (drop (length (events s)) (events s')) = take (nat n) ob @ [lo8 csum, hi8 csum]
           \<and> outBuf s' = ob"
proof -
  let ?d = "driveNum_of (cmdBuf s)"
  let ?t = "trackNum_of (cmdBuf s)"
  let ?su = "if ?t \<noteq> uint (curTrack s ! nat ?d) then
            emit (TrackChanged (word_of_int ?d) (word_of_int ?t))
              (s\<lparr>curTrack := (curTrack s)[nat ?d := word_of_int ?t]\<rparr>)
          else s"
  have ut: "updateTrack ?d ?t s = Inr (?t, ?su)"
    using assms(2,3) driveNum_of_nonneg by (rule_tac updateTrack_mounted) simp_all
  have su: "driveFile ?su = driveFile s" "disk ?su = disk s" "outBuf ?su = outBuf s"
    "portOpen ?su"
    using assms(1) by (simp_all add: emit_def)
  have ev: "sent (drop (length (events s)) (events ?su)) = []"
    by (simp add: emit_def)
  have ev2: "\<exists>es. events ?su = events s @ es \<and> sent es = []"
    by (simp add: emit_def)
  then obtain es where es: "events ?su = events s @ es" "sent es = []" by blast
  show ?thesis
    using assms(2,4,5,6,7) su es
    by (simp add: readTrack_def Let_def ut memcpy_def serialWrite_def startTimer_def emit_def
        sent_append)
qed

subsection \<open>The WRIT handlers and the file\<close>



subsection \<open>The example states, evaluated\<close>

lemmas consts_defs = MAX_DRIVE_def CMD_LEN_def CRC_LEN_def CMDBUF_SIZE_def TRKBUF_SIZE_def
  TRKBUF_BYTES_def STAT_OK_def STAT_NOT_READY_def STAT_CHECKSUM_ERR_def STAT_WRITE_ERR_def
  FDC_TIMEOUT_def

lemmas frame_defs = command_def param1_def param2_def rcode_def rdata_def checksum_def
  set_command_def set_rcode_def set_rdata_def set_checksum_def tag_def lo8_def hi8_def
  word16_def driveNum_of_def trackNum_of_def trackLen_of_def clampLen_def checkSum_def
  memcpy_def

lemma checkSum_loop_replicate:
  "checkSum_loop (replicate n b) acc = acc + of_nat n * ucast b"
  by (induction n arbitrary: acc) (simp_all add: algebra_simps)

lemma replicate_update0: "0 < n \<Longrightarrow> (replicate n x)[0 := a] = a # replicate (n - 1) x"
  by (cases n) simp_all

lemma exOnline_eq:
  "exOnline = exNew\<lparr>portOpen := True, portName := ''COM1'', portBaud := 403200,
      connected := True, events := [TimerStart 2000, StatusChanged ''Online'']\<rparr>"
  by (simp add: exOnline_def exNew_def FDC_new_def openPort_def setBaud_def exPorts_def
      emit_def consts_defs)

lemma exMounted_eq:
  "exMounted = exOnline\<lparr>
      driveFile := (driveFile exOnline)[0 := \<lparr>fileName = ''a.dsk'', isOpen = True, pos = 0\<rparr>],
      maxTrack := (maxTrack exOnline)[0 := 34],
      events := events exOnline @ [MountChanged 0 True ''a.dsk'' 34 ''75K'']\<rparr>"
  by (simp add: exMounted_def mountDisk_def exOnline_eq exNew_def FDC_new_def exDisk_def
      geometry_def updateTrack_def emit_def consts_defs Let_def)

lemma frame_WRIT: "frame ''WRIT'' 0x000A 137 = [87, 82, 73, 84, 10, 0, 137, 0, 217, 1]"
  by (simp add: frame_def tag_def lo8_def hi8_def checkSum_def consts_defs)

lemma exWrit_eq:
  "exWrit = exMounted\<lparr>
      tmpBuf := [87, 82, 73, 84, 10, 0, 137, 0, 217, 1] @ replicate 4376 0xE5,
      cmdBuf := [87, 82, 73, 84, 10, 0, 137, 0, 217, 1],
      outBuf := [87, 82, 73, 84, 0, 0, 137, 0, 207, 1] @ replicate 4376 0xE5,
      writePkts := 1, state := STATE_WRIT,
      events := events exMounted @ [SerialWrite [87, 82, 73, 84, 0, 0, 137, 0, 207, 1], TimerStart 2000]\<rparr>"
  by (simp add: exWrit_def frame_WRIT readData_def commandFrame_def writeResponse_def
      exMounted_eq exOnline_eq exNew_def FDC_new_def
      memcpy_def checksum_def checkSum_def command_def tag_def word16_def driveNum_of_def param1_def
      set_rcode_def set_checksum_def lo8_def hi8_def serialWrite_def startTimer_def
      emit_def consts_defs Let_def replicate_update0)

lemma exWrit_facts:
  "state exWrit = STATE_WRIT" "portOpen exWrit" "sized exWrit" "tmpBufIdx exWrit = 0"
  "driveNum_of (cmdBuf exWrit) = 0" "trackLen_of (cmdBuf exWrit) = 137"
  "trackNum_of (cmdBuf exWrit) = 10"
  "isOpen (driveFile exWrit ! 0)"
  "disk exWrit (fileName (driveFile exWrit ! 0)) = Some (replicate 76800 0)"
  "diskLimit exWrit = 100000"
  "command (cmdBuf exWrit) = tag ''WRIT''"
  "param1 (cmdBuf exWrit) = 10" "param2 (cmdBuf exWrit) = 137"
  by (simp_all add: exWrit_eq exMounted_eq exOnline_eq exNew_def FDC_new_def sized_def
      consts_defs driveNum_of_def trackLen_of_def trackNum_of_def param1_def param2_def
      word16_def exDisk_def command_def tag_def)

subsection \<open>A payload with a wrong trailer\<close>

lemma writeTrack_checksum_err:
  assumes "driveNum_of (cmdBuf s) < MAX_DRIVE"
    and "isOpen (driveFile s ! nat (driveNum_of (cmdBuf s)))"
    and "0 \<le> trackLen_of (cmdBuf s)" and "trackLen_of (cmdBuf s) \<le> int TRKBUF_SIZE"
    and "word16 (inBuf s ! nat (trackLen_of (cmdBuf s)))
           (inBuf s ! Suc (nat (trackLen_of (cmdBuf s))))
         \<noteq> checkSum (inBuf s) (nat (trackLen_of (cmdBuf s)))"
  shows "writeTrack s = Inr (wstaResponse STAT_CHECKSUM_ERR (s\<lparr>crcErrs := crcErrs s + 1\<rparr>))"
  using assms
  by (simp add: writeTrack_def Let_def TRKBUF_BYTES_def TRKBUF_SIZE_def CRC_LEN_def
      nat_add_distrib)

text \<open>
  What \<open>writeTrack\<close> does once it runs, that is, once \<open>tmpBuf\<close> holds
  \<open>TRKBUF_SIZE + CRC_LEN\<close> bytes: the drive of the remembered WRIT command is in range
  and mounted, and the two bytes after the first \<open>trackLen\<close> bytes of the buffer differ
  from the sum of these bytes. Then the step sends exactly one frame, tagged WSTA, with
  \<open>rcode = STAT_CHECKSUM_ERR\<close> (2) and a valid checksum; the 16-bit counter \<open>crcErrs\<close>
  goes up by one; no file of the host changes; and the framer is back in \<open>STATE_CMD\<close>.
  A payload of \<open>trackLen + 2\<close> bytes with \<open>trackLen\<close> below \<open>TRKBUF_SIZE\<close> does not get
  this far (section "When the payload branch runs").
\<close>

lemma bad_payload_checksum:
  assumes "state s = STATE_WRIT" and "portOpen s" and "sized s"
    and "tmpBufIdx s + length avail = TRKBUF_BYTES"
    and "payload = take (tmpBufIdx s) (tmpBuf s) @ avail"
    and "driveNum_of (cmdBuf s) < MAX_DRIVE"
    and "isOpen (driveFile s ! nat (driveNum_of (cmdBuf s)))"
    and "0 \<le> trackLen_of (cmdBuf s)" and "trackLen_of (cmdBuf s) \<le> int TRKBUF_SIZE"
    and "n = nat (trackLen_of (cmdBuf s))"
    and "word16 (payload ! n) (payload ! Suc n) \<noteq> checkSum payload n"
  shows "\<exists>s' f. readData avail s = Inr s'
           \<and> events s' = events s @ [SerialWrite f]
           \<and> length f = CMDBUF_SIZE \<and> command f = tag ''WSTA''
           \<and> rcode f = STAT_CHECKSUM_ERR \<and> checksum f = checkSum f CMD_LEN
           \<and> crcErrs s' = crcErrs s + 1 \<and> disk s' = disk s \<and> state s' = STATE_CMD"
proof -
  define s0 where "s0 = s\<lparr>tmpBuf := payload, tmpBufIdx := TRKBUF_BYTES, inBuf := payload\<rparr>"
  define w where "w = snd (wstaResponse STAT_CHECKSUM_ERR (s0\<lparr>crcErrs := crcErrs s0 + 1\<rparr>))"
  have s0: "cmdBuf s0 = cmdBuf s" "driveFile s0 = driveFile s" "inBuf s0 = payload"
    "portOpen s0" "events s0 = events s" "crcErrs s0 = crcErrs s" "disk s0 = disk s"
    using assms(2) by (simp_all add: s0_def)
  have "writeTrack s0 = Inr (wstaResponse STAT_CHECKSUM_ERR (s0\<lparr>crcErrs := crcErrs s0 + 1\<rparr>))"
    by (rule writeTrack_checksum_err) (use assms(6-11) s0 in simp_all)
  then have rd: "readData avail s = Inr (w\<lparr>tmpBufIdx := 0, state := STATE_CMD\<rparr>)"
    using readData_payload [OF assms(1,3,4,5)]
    by (simp add: s0_def [symmetric] w_def case_prod_beta)
  have "CMDBUF_SIZE \<le> length (cmdBuf (s0\<lparr>crcErrs := crcErrs s0 + 1\<rparr>))"
    using assms(3) s0 by (simp add: sized_def)
  with wstaResponse_sent [of "s0\<lparr>crcErrs := crcErrs s0 + 1\<rparr>" STAT_CHECKSUM_ERR] s0
  obtain f where f: "events w = events s @ [SerialWrite f]"
      "length f = CMDBUF_SIZE" "command f = tag ''WSTA''" "rcode f = STAT_CHECKSUM_ERR"
      "checksum f = checkSum f CMD_LEN"
    by (auto simp add: w_def)
  have "crcErrs w = crcErrs s + 1" "disk w = disk s"
    using s0 by (simp_all add: w_def wstaResponse_frame)
  with f show ?thesis
    unfolding rd by simp
qed

lemma payloadBad_facts:
  "length payloadBad = 4386" "payloadBad ! 137 = 0" "payloadBad ! 138 = 0"
  "checkSum payloadBad 137 = 137"
  by (simp_all add: payloadBad_def nth_append checkSum_def checkSum_loop_replicate)

lemma bad_payload_checksum_witness:
  "state exWrit = STATE_WRIT \<and> isOpen (driveFile exWrit ! 0)
   \<and> trackLen_of (cmdBuf exWrit) = 137
   \<and> word16 (payloadBad ! 137) (payloadBad ! 138) \<noteq> checkSum payloadBad 137
   \<and> (\<exists>s' f. readData payloadBad exWrit = Inr s'
           \<and> events s' = events exWrit @ [SerialWrite f]
           \<and> length f = CMDBUF_SIZE \<and> command f = tag ''WSTA''
           \<and> rcode f = STAT_CHECKSUM_ERR \<and> checksum f = checkSum f CMD_LEN
           \<and> crcErrs s' = crcErrs exWrit + 1 \<and> disk s' = disk exWrit \<and> state s' = STATE_CMD)"
proof -
  have neq: "word16 (payloadBad ! 137) (payloadBad ! 138) \<noteq> checkSum payloadBad 137"
    by (simp add: payloadBad_facts word16_def)
  have "\<exists>s' f. readData payloadBad exWrit = Inr s'
           \<and> events s' = events exWrit @ [SerialWrite f]
           \<and> length f = CMDBUF_SIZE \<and> command f = tag ''WSTA''
           \<and> rcode f = STAT_CHECKSUM_ERR \<and> checksum f = checkSum f CMD_LEN
           \<and> crcErrs s' = crcErrs exWrit + 1 \<and> disk s' = disk exWrit \<and> state s' = STATE_CMD"
    by (rule bad_payload_checksum [where payload = payloadBad and n = 137])
       (use neq in \<open>simp_all add: exWrit_facts payloadBad_facts consts_defs\<close>)
  with neq show ?thesis
    by (simp add: exWrit_facts)
qed

subsection \<open>Reading back what was written\<close>








lemma payloadOK_facts:
  "length payloadOK = 4386" "payloadOK ! 137 = 137" "payloadOK ! 138 = 0"
  "checkSum payloadOK 137 = 137" "take 137 payloadOK = replicate 137 1"
  by (simp_all add: payloadOK_def nth_append checkSum_def checkSum_loop_replicate)




subsection \<open>More on the example states\<close>

lemmas ex_defs = exWrit_eq exMounted_eq exOnline_eq exNew_def FDC_new_def exDisk_def exPorts_def

lemma stateOf_Inr: "r = Inr x \<Longrightarrow> stateOf r s = x"
  by (simp add: stateOf_def)

lemma stateOf2_Inr: "r = Inr (b, x) \<Longrightarrow> stateOf2 r s = x"
  by (simp add: stateOf2_def)

subsection \<open>Opening the port, then silence\<close>

text \<open>
  C10. When \<open>openPort\<close> returns true, \<open>connected\<close> is already set, the port is open and
  the last signal is \<open>statusChanged("Online")\<close>, with no byte received. A timer expiry in
  that state clears the port, emits \<open>statusChanged("Communications timeout")\<close> and resets
  \<open>connected\<close>; the framer is in \<open>STATE_CMD\<close>.
\<close>

theorem openPort_then_timeout:
  assumes "openPort name baudRate s = (True, s1)"
  shows "connected s1 \<and> portOpen s1
       \<and> events s1 = events (if portOpen s then closePort s else s) @ [StatusChanged ''Online'']
       \<and> connected (timeoutSlot s1) = False
       \<and> events (timeoutSlot s1)
           = events s1 @ [SerialClear, StatusChanged ''Communications timeout'']
       \<and> state (timeoutSlot s1) = STATE_CMD"
proof -
  define s2 where "s2 = (if portOpen s then closePort s else s)\<lparr>portName := name\<rparr>"
  have op: "openPort name baudRate s =
     (case hostPorts s2 name of
        None \<Rightarrow> (False, s2)
      | Some rates \<Rightarrow>
          (let (r, s3) = setBaud baudRate (s2\<lparr>portOpen := True\<rparr>)
           in if r = False then (False, closePort s3)
              else (True, emit (StatusChanged ''Online'') (s3\<lparr>connected := True\<rparr>))))"
    unfolding openPort_def Let_def s2_def by (rule refl)
  from assms obtain rates where r: "hostPorts s2 name = Some rates"
    unfolding op by (cases "hostPorts s2 name") simp_all
  obtain r s3 where sb: "setBaud baudRate (s2\<lparr>portOpen := True\<rparr>) = (r, s3)"
    by (cases "setBaud baudRate (s2\<lparr>portOpen := True\<rparr>)")
  from assms have rt: "r" and s1: "s1 = emit (StatusChanged ''Online'') (s3\<lparr>connected := True\<rparr>)"
    unfolding op r sb by (simp_all split: if_splits)
  from sb rt have s3: "s3 = s2\<lparr>portOpen := True, portBaud := baudRate\<rparr>"
    by (auto simp add: setBaud_def Let_def split: if_splits option.splits)
  have a: "connected s1" "portOpen s1"
    "events s1 = events (if portOpen s then closePort s else s) @ [StatusChanged ''Online'']"
    by (simp_all add: s1 s3 s2_def emit_def)
  then show ?thesis
    by (simp add: timeoutSlot_def Let_def emit_def)
qed

theorem openPort_then_timeout_witness:
  "openPort ''COM1'' 403200 exNew = (True, exOnline)
   \<and> connected exOnline \<and> portOpen exOnline
   \<and> events exOnline = [TimerStart 2000, StatusChanged ''Online'']
   \<and> connected (timeoutSlot exOnline) = False
   \<and> events (timeoutSlot exOnline)
       = [TimerStart 2000, StatusChanged ''Online'', SerialClear,
          StatusChanged ''Communications timeout'']"
proof -
  have op: "openPort ''COM1'' 403200 exNew = (True, exOnline)"
    by (simp add: exOnline_eq exNew_def FDC_new_def openPort_def setBaud_def exPorts_def
      emit_def consts_defs)
  have ev: "events exOnline = [TimerStart 2000, StatusChanged ''Online'']"
    by (simp add: exOnline_eq)
  from openPort_then_timeout [OF op] op ev show ?thesis
    by simp
qed

lemmas step_defs = readData_def commandFrame_def payloadFrame_def statCommand_def statResponse_def
  readTrack_def writeResponse_def writeTrack_def wstaResponse_def updateTrack_def
  mountDisk_def unmountDisk_def geometry_def
  qfile_seek_def qfile_read_def qfile_write_def serialWrite_def startTimer_def emit_def Let_def

subsection \<open>mountDisk with a drive number that is not a drive\<close>

text \<open>
  C6. \<open>mountDisk(4, path)\<close>: the source has no test of \<open>drive\<close>; its first statement
  reads \<open>curTrack[4]\<close> and \<open>driveFile[4]\<close>, outside both arrays. No "drive out of
  range" error is emitted and nothing is returned.
\<close>

theorem mountDisk_drive4_indexes_outside:
  "mountDisk 4 ''a.dsk'' exOnline = Inl (IndexOutOfRange ''curTrack'' 4)"
  by (simp add: mountDisk_def MAX_DRIVE_def)

lemma mountDisk_out_of_range:
  "MAX_DRIVE \<le> drive \<Longrightarrow> mountDisk drive filename s = Inl (IndexOutOfRange ''curTrack'' drive)"
  by (simp add: mountDisk_def)

subsection \<open>The STAT branch and headStatus\<close>

lemma frame_STAT:
  "frame ''STAT'' 0x0000 0 = [83, 84, 65, 84, 0, 0, 0, 0, 60, 1]"
  "frame ''STAT'' 0x0004 0 = [83, 84, 65, 84, 4, 0, 0, 0, 64, 1]"
  by (simp_all add: frame_def tag_def lo8_def hi8_def checkSum_def consts_defs)

text \<open>
  C4. The first STAT frame after start-up, for drive 0: \<open>driveSelected\<close> is still
  \<open>0xff\<close> and the branch reads \<open>headStatus[255]\<close>. And a STAT frame for drive 4 when
  drive 0 is selected: the test \<open>newDrive <= MAX_DRIVE\<close> admits 4 and the branch reads
  \<open>headStatus[4]\<close>.
\<close>

theorem stat_indexes_headStatus_outside:
  "driveSelected exOnline = 0xff
   \<and> readData (frame ''STAT'' 0x0000 0) exOnline = Inl (IndexOutOfRange ''headStatus'' 255)
   \<and> readData (frame ''STAT'' 0x0004 0) (exOnline\<lparr>driveSelected := 0\<rparr>)
       = Inl (IndexOutOfRange ''headStatus'' 4)"
  by (simp add: frame_STAT step_defs ex_defs frame_defs consts_defs)

subsection \<open>The index into inBuf\<close>

lemma frame_WRIT5000: "frame ''WRIT'' 0x000A 5000 = [87, 82, 73, 84, 10, 0, 136, 19, 235, 1]"
  by (simp add: frame_def tag_def lo8_def hi8_def checkSum_def consts_defs)

lemma exWrit5000_run:
  "\<exists>X. readData (frame ''WRIT'' 0x000A 5000) exMounted = Inr X
      \<and> state X = STATE_WRIT \<and> cmdBuf X = [87, 82, 73, 84, 10, 0, 136, 19, 235, 1]
      \<and> tmpBufIdx X = 0 \<and> length (tmpBuf X) = 4386"
  by (simp add: frame_WRIT5000 step_defs ex_defs frame_defs consts_defs replicate_update0)

text \<open>
  C3. After a WRIT command whose \<open>param2\<close> is 5000, the step that completes the payload
  reads \<open>inBuf[5000]\<close>, outside the 4386 bytes of \<open>inBuf\<close>: \<open>writeTrack\<close> takes the
  trailer from \<open>inBuf[trackLen]\<close> before it compares \<open>trackLen\<close> with the size of the
  buffer.
\<close>

theorem payload_index_before_clamp:
  "state exWrit5000 = STATE_WRIT \<and> trackLen_of (cmdBuf exWrit5000) = 5000
   \<and> readData (replicate 4386 0) exWrit5000 = Inl (IndexOutOfRange ''inBuf'' 5000)"
proof -
  from exWrit5000_run obtain X where X: "readData (frame ''WRIT'' 0x000A 5000) exMounted = Inr X"
     "state X = STATE_WRIT" "cmdBuf X = [87, 82, 73, 84, 10, 0, 136, 19, 235, 1]"
     "tmpBufIdx X = 0" "length (tmpBuf X) = 4386"
    by blast
  then have e: "exWrit5000 = X"
    by (simp add: exWrit5000_def stateOf_def)
  have tl: "trackLen_of (cmdBuf X) = 5000"
    by (simp add: X frame_defs)
  have "readData (replicate 4386 0) X = Inl (IndexOutOfRange ''inBuf'' 5000)"
    using X tl by (simp add: readData_def payloadFrame_def writeTrack_def Let_def consts_defs)
  with X tl show ?thesis by (simp add: e)
qed

subsection \<open>When the payload branch runs\<close>

text \<open>
  In \<open>STATE_WRIT\<close> nothing happens until \<open>tmpBuf\<close> is full, whatever the length in the
  remembered command.
\<close>

lemma readData_payload_incomplete:
  assumes "state s = STATE_WRIT" and "tmpBufIdx s + length avail < TRKBUF_BYTES"
  shows "\<exists>s'. readData avail s = Inr s' \<and> state s' = STATE_WRIT \<and> events s' = events s
           \<and> tmpBufIdx s' = tmpBufIdx s + length avail \<and> cmdBuf s' = cmdBuf s
           \<and> crcErrs s' = crcErrs s \<and> disk s' = disk s"
proof -
  have fits: "length avail \<le> TRKBUF_BYTES - tmpBufIdx s"
    using assms(2) by linarith
  have ne: "tmpBufIdx s + length avail \<noteq> TRKBUF_SIZE + CRC_LEN" "tmpBufIdx s \<noteq> TRKBUF_SIZE + CRC_LEN"
    using assms(2) by (simp_all add: TRKBUF_BYTES_def)
  show ?thesis
    using assms(1) fits ne by (simp add: readData_def Let_def)
qed

lemma payload139_facts:
  "length payload139 = 139" "payload139 ! 137 = 137" "payload139 ! 138 = 0"
  "checkSum payload139 137 = 137"
  by (simp_all add: payload139_def nth_append checkSum_def checkSum_loop_replicate)

text \<open>
  C1. After a WRIT command for a track length of 137, the controller sends 137 bytes
  and their sum: 139 bytes. The framer stays in \<open>STATE_WRIT\<close> with 139 bytes buffered
  and sends nothing: \<open>readData\<close> compares \<open>tmpBufIdx\<close> with \<open>TRKBUF_SIZE + CRC_LEN\<close>
  (4386), not with \<open>trackLen + 2\<close>.
\<close>

theorem payload_waits_for_full_buffer:
  "state exWrit = STATE_WRIT \<and> trackLen_of (cmdBuf exWrit) = 137
   \<and> length payload139 = 139
   \<and> word16 (payload139 ! 137) (payload139 ! 138) = checkSum payload139 137
   \<and> readData payload139 exWrit = Inr exWrit139
   \<and> state exWrit139 = STATE_WRIT \<and> events exWrit139 = events exWrit
   \<and> tmpBufIdx exWrit139 = 139"
proof -
  from readData_payload_incomplete [of exWrit payload139]
  obtain X where X: "readData payload139 exWrit = Inr X" "state X = STATE_WRIT"
    "events X = events exWrit" "tmpBufIdx X = 139"
    by (auto simp add: exWrit_facts payload139_facts consts_defs)
  then have "exWrit139 = X"
    by (simp add: exWrit139_def stateOf_def)
  with X show ?thesis
    by (simp add: exWrit_facts payload139_facts word16_def)
qed

lemma payloadBad139_facts:
  "length payloadBad139 = 139" "payloadBad139 ! 137 = 0" "payloadBad139 ! 138 = 0"
  "checkSum payloadBad139 137 = 137"
  by (simp_all add: payloadBad139_def nth_append checkSum_def checkSum_loop_replicate)

text \<open>
  C7. After a WRIT command for the mounted drive 0, track 10 and a track length of 137,
  the controller sends the 137 bytes and a trailer that differs from their sum: a
  completed write payload of 139 bytes. The step sends no WSTA frame (the trace is
  unchanged), \<open>crcErrs\<close> is not incremented and the framer stays in \<open>STATE_WRIT\<close>:
  \<open>writeTrack\<close>, which would answer with \<open>STAT_CHECKSUM_ERR\<close>, runs only when \<open>tmpBuf\<close>
  holds \<open>TRKBUF_SIZE + CRC_LEN\<close> (4386) bytes.
\<close>

theorem bad_payload_139_unanswered:
  "state exWrit = STATE_WRIT \<and> driveNum_of (cmdBuf exWrit) = 0
   \<and> isOpen (driveFile exWrit ! 0) \<and> trackLen_of (cmdBuf exWrit) = 137
   \<and> length payloadBad139 = 139
   \<and> word16 (payloadBad139 ! 137) (payloadBad139 ! 138) \<noteq> checkSum payloadBad139 137
   \<and> readData payloadBad139 exWrit = Inr exWritBad139
   \<and> events exWritBad139 = events exWrit \<and> crcErrs exWritBad139 = crcErrs exWrit
   \<and> state exWritBad139 = STATE_WRIT \<and> tmpBufIdx exWritBad139 = 139"
proof -
  from readData_payload_incomplete [of exWrit payloadBad139]
  obtain X where X: "readData payloadBad139 exWrit = Inr X" "state X = STATE_WRIT"
    "events X = events exWrit" "tmpBufIdx X = 139" "crcErrs X = crcErrs exWrit"
    by (auto simp add: exWrit_facts payloadBad139_facts consts_defs)
  then have "exWritBad139 = X"
    by (simp add: exWritBad139_def stateOf_def)
  with X show ?thesis
    by (simp add: exWrit_facts payloadBad139_facts word16_def)
qed

subsection \<open>The timer and the four responses\<close>

lemma timerStarts_append: "timerStarts (xs @ ys) = timerStarts xs + timerStarts ys"
  by (induction xs rule: timerStarts.induct) simp_all

lemma exWritten_run:
  "\<exists>X. readData payloadOK exWrit = Inr X
     \<and> events X = events exWrit
          @ [TrackChanged 0 10, SerialWrite [87, 83, 84, 65, 0, 0, 137, 0, 200, 1]]"
proof -
  have rd: "readData payloadOK exWrit =
     (case writeTrack (exWrit\<lparr>tmpBuf := payloadOK, tmpBufIdx := TRKBUF_BYTES,
                               inBuf := payloadOK\<rparr>) of
        Inl e \<Rightarrow> Inl e
      | Inr (b, s1) \<Rightarrow> Inr (s1\<lparr>tmpBufIdx := 0, state := STATE_CMD\<rparr>))"
    by (rule readData_payload) (simp_all add: exWrit_facts payloadOK_facts consts_defs)
  show ?thesis
    unfolding rd
    by (simp add: writeTrack_def Let_def exWrit_facts payloadOK_facts consts_defs
        updateTrack_def qfile_seek_def qfile_write_def wstaResponse_def serialWrite_def emit_def
        ex_defs frame_defs checkSum_loop_replicate)
qed

text \<open>
  C8. The step that completes a good payload sends the WSTA frame, and the trace of
  the step has no \<open>TimerStart\<close>: \<open>writeTrack\<close> has no call of
  \<open>timeoutTimer->start\<close>.
\<close>

theorem wsta_sent_without_timer_restart:
  "readData payloadOK exWrit = Inr exWritten
   \<and> events exWritten = events exWrit
        @ [TrackChanged 0 10, SerialWrite [87, 83, 84, 65, 0, 0, 137, 0, 200, 1]]
   \<and> timerStarts (events exWritten) = timerStarts (events exWrit)"
proof -
  from exWritten_run obtain X where X: "readData payloadOK exWrit = Inr X"
    "events X = events exWrit
          @ [TrackChanged 0 10, SerialWrite [87, 83, 84, 65, 0, 0, 137, 0, 200, 1]]"
    by blast
  then have "exWritten = X"
    by (simp add: exWritten_def stateOf_def)
  with X show ?thesis
    by (simp add: timerStarts_append)
qed

text \<open>The three other responses restart the timer.\<close>

lemma statResponse_restarts_timer:
  "timerStarts (events (snd (statResponse s))) = Suc (timerStarts (events s))"
  by (simp add: statResponse_def Let_def serialWrite_def startTimer_def emit_def
      timerStarts_append)

lemma writeResponse_restarts_timer:
  "driveNum_of (cmdBuf s) < MAX_DRIVE \<Longrightarrow>
     timerStarts (events (snd (writeResponse s))) = Suc (timerStarts (events s))"
  by (simp add: writeResponse_def Let_def serialWrite_def startTimer_def emit_def
      timerStarts_append)

lemma updateTrack_timer:
  "updateTrack d t s = Inr (t', s') \<Longrightarrow> timerStarts (events s') = timerStarts (events s)"
  by (auto simp add: updateTrack_def Let_def emit_def timerStarts_append split: if_splits)

lemma readTrack_restarts_timer:
  assumes "driveNum_of (cmdBuf s) < MAX_DRIVE" and "readTrack s = Inr (b, s')"
  shows "timerStarts (events s') = Suc (timerStarts (events s))"
proof -
  from assms obtain t' su where u: "updateTrack (driveNum_of (cmdBuf s)) (trackNum_of (cmdBuf s)) s = Inr (t', su)"
    by (auto simp add: readTrack_def Let_def split: sum.splits)
  from updateTrack_timer [OF u] assms u show ?thesis
    by (auto simp add: readTrack_def Let_def serialWrite_def startTimer_def emit_def
        timerStarts_append split: prod.splits)
qed

lemma wstaResponse_timer:
  "timerStarts (events (snd (wstaResponse rc s))) = timerStarts (events s)"
  by (simp add: wstaResponse_def Let_def serialWrite_def emit_def timerStarts_append)

text \<open>No outcome of \<open>writeTrack\<close> restarts it.\<close>

lemma wstaResponse_timer':
  "wstaResponse rc s = (b, s') \<Longrightarrow> timerStarts (events s') = timerStarts (events s)"
  using wstaResponse_timer [of rc s] by simp

lemma writeTrack_no_timer_restart:
  assumes "writeTrack s = Inr (b, s')"
  shows "timerStarts (events s') = timerStarts (events s)"
proof -
  let ?cmd = "cmdBuf s"
  from assms have inb: "\<not> (trackLen_of ?cmd < 0 \<or> int TRKBUF_BYTES \<le> trackLen_of ?cmd)"
    "\<not> int TRKBUF_BYTES \<le> trackLen_of ?cmd + 1"
    by (auto simp add: writeTrack_def Let_def split: if_splits)
  show ?thesis
  proof (cases "MAX_DRIVE \<le> driveNum_of ?cmd")
    case True
    with assms inb show ?thesis
      by (auto simp add: writeTrack_def Let_def emit_def timerStarts_append)
  next
    case dn: False
    show ?thesis
    proof (cases "isOpen (driveFile s ! nat (driveNum_of ?cmd))")
      case False
      with assms inb dn show ?thesis
        by (auto simp add: writeTrack_def Let_def dest: wstaResponse_timer')
    next
      case op: True
      show ?thesis
      proof (cases "word16 (inBuf s ! nat (trackLen_of ?cmd)) (inBuf s ! nat (trackLen_of ?cmd + 1))
                      = checkSum (inBuf s) (nat (trackLen_of ?cmd))")
        case False
        with assms inb dn op show ?thesis
          by (auto simp add: writeTrack_def Let_def dest: wstaResponse_timer')
      next
        case True
        with assms inb dn op obtain t' su where
          u: "updateTrack (driveNum_of ?cmd) (trackNum_of ?cmd) s = Inr (t', su)"
          by (auto simp add: writeTrack_def Let_def split: sum.splits)
        from updateTrack_timer [OF u] assms inb dn op True u show ?thesis
          by (auto simp add: writeTrack_def Let_def split: prod.splits
              dest!: wstaResponse_timer')
      qed
    qed
  qed
qed

subsection \<open>mountDisk on a mounted drive, with a file that cannot be opened\<close>

lemma frame_READ5: "frame ''READ'' 0x0005 137 = [82, 69, 65, 68, 5, 0, 137, 0, 170, 1]"
  by (simp add: frame_def tag_def lo8_def hi8_def checkSum_def consts_defs)

lemma replicate_small:
  "replicate 2 x = [x, x]" "replicate 3 x = [x, x, x]" "replicate 4 x = [x, x, x, x]"
  by (simp_all add: numeral_eq_Suc)

lemma exRead5_run:
  "\<exists>X. readData (frame ''READ'' 0x0005 137) exMounted = Inr X
      \<and> curTrack X = [5, 0, 0, 0]
      \<and> driveFile X = [\<lparr>fileName = ''a.dsk'', isOpen = True, pos = 822\<rparr>,
            \<lparr>fileName = [], isOpen = False, pos = 0\<rparr>,
            \<lparr>fileName = [], isOpen = False, pos = 0\<rparr>,
            \<lparr>fileName = [], isOpen = False, pos = 0\<rparr>]
      \<and> disk X = exDisk \<and> sized X"
  by (simp add: frame_READ5 step_defs ex_defs frame_defs consts_defs replicate_update0
      replicate_small sized_def)

lemma mountDisk_open_fails:
  assumes "0 \<le> drive" and "drive < MAX_DRIVE" and "disk s filename = None"
    and "nat drive < length (driveFile s)"
  shows "\<exists>s'. mountDisk drive filename s = Inr (False, s')
           \<and> isOpen (driveFile s' ! nat drive) = False
           \<and> (\<forall>d. d \<noteq> nat drive \<longrightarrow> driveFile s' ! d = driveFile s ! d)
           \<and> length (driveFile s') = length (driveFile s)
           \<and> curTrack s' = curTrack s"
  using assms by (simp add: mountDisk_def Let_def)

text \<open>
  C5. Drive 0 is mounted and a READ has moved it to track 5; the invariant holds.
  \<open>mountDisk(0, path)\<close> with a path that cannot be opened closes the old file, fails to
  open the new one and returns false: drive 0 is then not mounted and \<open>curTrack[0]\<close> is
  still 5. (\<open>unmountDisk\<close> calls \<open>updateTrack(drive, 0)\<close> before it closes the file;
  \<open>mountDisk\<close> does not.)
\<close>

theorem failed_remount_keeps_track:
  "isOpen (driveFile exRead5 ! 0) \<and> curTrack exRead5 = [5, 0, 0, 0] \<and> trackInv exRead5
   \<and> mountDisk 0 ''missing.dsk'' exRead5 = Inr (False, exRemount)
   \<and> isOpen (driveFile exRemount ! 0) = False \<and> curTrack exRemount ! 0 = 5
   \<and> trackInv exRemount = False"
proof -
  from exRead5_run obtain X where X: "readData (frame ''READ'' 0x0005 137) exMounted = Inr X"
    "curTrack X = [5, 0, 0, 0]"
    "driveFile X = [\<lparr>fileName = ''a.dsk'', isOpen = True, pos = 822\<rparr>,
            \<lparr>fileName = [], isOpen = False, pos = 0\<rparr>,
            \<lparr>fileName = [], isOpen = False, pos = 0\<rparr>,
            \<lparr>fileName = [], isOpen = False, pos = 0\<rparr>]"
    "disk X = exDisk"
    by blast
  then have e: "exRead5 = X"
    by (simp add: exRead5_def stateOf_def)
  from mountDisk_open_fails [of 0 X "''missing.dsk''"] X
  obtain Y where Y: "mountDisk 0 ''missing.dsk'' X = Inr (False, Y)"
    "isOpen (driveFile Y ! 0) = False" "length (driveFile Y) = 4"
    "curTrack Y = curTrack X"
    by (auto simp add: exDisk_def MAX_DRIVE_def)
  from Y(2,3) obtain f r where fr: "driveFile Y = f # r" "isOpen f = False"
    by (cases "driveFile Y") auto
  from Y(1) have "exRemount = Y"
    by (simp add: exRemount_def stateOf2_def e)
  with X Y fr show ?thesis by (simp add: e trackInv_def)
qed

subsection \<open>A READ that the file cannot fill\<close>

lemma qfile_read_length:
  "qfile_read n f dsk = (bytesRead, got, f') \<Longrightarrow> length got \<le> n"
  by (auto simp add: qfile_read_def Let_def split: if_splits option.splits)

lemma clampLen_trackLen_range:
  "0 \<le> clampLen (trackLen_of cmd) TRKBUF_BYTES
   \<and> clampLen (trackLen_of cmd) TRKBUF_BYTES \<le> int TRKBUF_BYTES"
proof -
  let ?x = "trackLen_of cmd"
  let ?M = "18446744073709551616 :: int"
  have lo: "- (2 ^ 15) \<le> ?x"
    using sint_ge [of "param2 cmd"] by (simp add: trackLen_of_def)
  show ?thesis
  proof (cases "?x < 0")
    case True
    with lo have "(?x + ?M) mod ?M = ?x + ?M"
      by (intro mod_pos_pos_trivial) simp_all
    then have "?x mod ?M = ?x + ?M"
      by simp
    with lo show ?thesis
      by (simp add: clampLen_def TRKBUF_BYTES_def TRKBUF_SIZE_def CRC_LEN_def)
  next
    case False
    then show ?thesis
    proof (cases "?x < ?M")
      case True
      with False have "?x mod ?M = ?x" by simp
      with False show ?thesis by (simp add: clampLen_def)
    next
      case big: False
      have "?x < 2 ^ 15"
        using sint_lt [of "param2 cmd"] by (simp add: trackLen_of_def)
      with big show ?thesis by simp
    qed
  qed
qed

text \<open>
  C9, as the code has it. A READ command for a mounted drive in range, where the file
  gives fewer than \<open>trackLen\<close> bytes (\<open>trackLen\<close> after the clamp to the size of
  \<open>outBuf\<close>): the server sends \<open>trackLen\<close> bytes, the bytes read followed by what
  \<open>outBuf\<close> held before at those positions, and then the trailer \<open>00 00\<close>. The sum is
  computed only when the read is complete.
\<close>

theorem short_read_sends_zero_trailer:
  assumes "state s = STATE_CMD" and "sized s" and "tmpBufIdx s = 0" and "portOpen s"
    and "length fr = CMDBUF_SIZE" and "command fr = tag ''READ''"
    and "checksum fr = checkSum fr CMD_LEN"
    and "driveNum_of fr < MAX_DRIVE" and "isOpen (driveFile s ! nat (driveNum_of fr))"
    and "n = clampLen (trackLen_of fr) TRKBUF_BYTES"
    and "qfile_read (nat n) (qfile_seek (trackNum_of fr * n)
            (driveFile s ! nat (driveNum_of fr))) (disk s) = (bytesRead, got, f2)"
    and "bytesRead < n"
    and "stale = take (nat n - length got) (drop (length got) (outBuf s))"
  shows "\<exists>s'. readData fr s = Inr s'
           \<and> sent (drop (length (events s)) (events s')) = got @ stale @ [0, 0]
           \<and> length (got @ stale) = nat n"
proof -
  define r0 where "r0 = s\<lparr>tmpBuf := fr @ drop CMDBUF_SIZE (tmpBuf s), tmpBufIdx := CMDBUF_SIZE,
                         cmdBuf := fr, readPkts := readPkts s + 1\<rparr>"
  have rd: "readData fr s =
     (case readTrack r0 of Inl e \<Rightarrow> Inl e | Inr (b, s') \<Rightarrow> Inr (s'\<lparr>tmpBufIdx := 0\<rparr>))"
    unfolding r0_def by (rule readData_READ) (rule assms)+
  have r0: "portOpen r0" "cmdBuf r0 = fr" "driveFile r0 = driveFile s" "disk r0 = disk s"
    "events r0 = events s" "outBuf r0 = outBuf s"
    using assms(4) by (simp_all add: r0_def)
  define ob where "ob = got @ drop (length got) (outBuf s)"
  have "\<exists>s'. readTrack r0 = Inr (False, s')
           \<and> sent (drop (length (events r0)) (events s')) = take (nat n) ob @ [lo8 0, hi8 0]
           \<and> outBuf s' = ob"
    by (rule readTrack_mounted [where n = n and bytesRead = bytesRead and got = got
          and ?f2.0 = f2])
       (use assms(8-12) r0 in \<open>simp_all add: ob_def\<close>)
  then obtain s' where s': "readTrack r0 = Inr (False, s')"
    "sent (drop (length (events r0)) (events s')) = take (nat n) ob @ [lo8 0, hi8 0]"
    by blast
  have lg: "length got \<le> nat n"
    using assms(11) by (rule qfile_read_length)
  have "n \<le> int TRKBUF_BYTES"
    using clampLen_trackLen_range [of fr] assms(10) by simp
  then have "nat n \<le> TRKBUF_BYTES"
    by linarith
  then have nb: "nat n \<le> length (outBuf s)"
    using assms(2) by (simp add: sized_def)
  have tk: "take (nat n) ob = got @ stale"
    using lg by (simp add: ob_def assms(13))
  have len: "length (got @ stale) = nat n"
    using lg nb by (simp add: assms(13))
  show ?thesis
    using s' r0 tk len by (simp add: rd lo8_def hi8_def)
qed


lemma frame_READ_short: "frame ''READ'' 0x1000 5 = [82, 69, 65, 68, 0, 16, 5, 0, 49, 1]"
  by (simp add: frame_def tag_def lo8_def hi8_def checkSum_def consts_defs)

lemma exShort_eq:
  "exShort = exOnline\<lparr>
      driveFile := (driveFile exOnline)[1 := \<lparr>fileName = ''short.dsk'', isOpen = True, pos = 0\<rparr>],
      maxTrack := (maxTrack exOnline)[1 := 2047],
      events := events exOnline @ [MountChanged 1 True ''short.dsk'' 2047 ''???'']\<rparr>"
  by (simp add: exShort_def stateOf2_def mountDisk_def exOnline_eq exNew_def FDC_new_def
      exDisk_def geometry_def updateTrack_def emit_def consts_defs Let_def)

lemma exShort_facts:
  "state exShort = STATE_CMD" "sized exShort" "tmpBufIdx exShort = 0" "portOpen exShort"
  "isOpen (driveFile exShort ! Suc 0)" "outBuf exShort = replicate 4386 0xE5"
  "qfile_read 5 (qfile_seek 0 (driveFile exShort ! Suc 0)) (disk exShort)
     = (3, [1, 2, 3], \<lparr>fileName = ''short.dsk'', isOpen = True, pos = 3\<rparr>)"
  by (simp_all add: exShort_eq exOnline_eq exNew_def FDC_new_def sized_def consts_defs
      qfile_read_def qfile_seek_def exDisk_def)

lemma frame_READ_short_facts:
  "length (frame ''READ'' 0x1000 5) = 10"
  "command (frame ''READ'' 0x1000 5) = tag ''READ''"
  "checksum (frame ''READ'' 0x1000 5) = checkSum (frame ''READ'' 0x1000 5) 8"
  "driveNum_of (frame ''READ'' 0x1000 5) = 1" "trackNum_of (frame ''READ'' 0x1000 5) = 0"
  "trackLen_of (frame ''READ'' 0x1000 5) = 5"
  by (simp_all add: frame_READ_short frame_defs)

theorem short_read_sends_zero_trailer_witness:
  "fst (qfile_read 5 (qfile_seek 0 (driveFile exShort ! 1)) (disk exShort)) = 3
   \<and> readData (frame ''READ'' 0x1000 5) exShort = Inr exShortRead
   \<and> sent (drop (length (events exShort)) (events exShortRead))
       = [1, 2, 3] @ [0xE5, 0xE5] @ [0, 0]"
proof -
  have "\<exists>s'. readData (frame ''READ'' 0x1000 5) exShort = Inr s'
           \<and> sent (drop (length (events exShort)) (events s'))
               = [1, 2, 3] @ [0xE5, 0xE5] @ [0, 0]
           \<and> length ([1, 2, 3 :: quint8] @ [0xE5, 0xE5]) = nat 5"
    by (rule short_read_sends_zero_trailer [where n = 5 and bytesRead = 3
          and ?f2.0 = "\<lparr>fileName = ''short.dsk'', isOpen = True, pos = 3\<rparr>"])
       (simp_all add: exShort_facts frame_READ_short_facts consts_defs clampLen_def
          replicate_small)
  then obtain X where X: "readData (frame ''READ'' 0x1000 5) exShort = Inr X"
    "sent (drop (length (events exShort)) (events X)) = [1, 2, 3] @ [0xE5, 0xE5] @ [0, 0]"
    by blast
  then have "exShortRead = X"
    by (simp add: exShortRead_def stateOf_def)
  with X show ?thesis
    by (simp add: exShort_facts)
qed

text \<open>
  C9, as it is claimed, fails: the file gives the three bytes 1, 2, 3 of the five asked
  for; their sum is 6, and the trailer sent is \<open>00 00\<close>, not \<open>06 00\<close>.
\<close>

theorem short_read_trailer_is_not_the_sum:
  "fst (qfile_read 5 (qfile_seek 0 (driveFile exShort ! 1)) (disk exShort)) = 3
   \<and> readData (frame ''READ'' 0x1000 5) exShort = Inr exShortRead
   \<and> sent (drop (length (events exShort)) (events exShortRead)) = [1, 2, 3, 0xE5, 0xE5, 0, 0]
   \<and> [lo8 (checkSum [1, 2, 3] 3), hi8 (checkSum [1, 2, 3] 3)] = [6, 0]
   \<and> sent (drop (length (events exShort)) (events exShortRead))
       \<noteq> [1, 2, 3, 0xE5, 0xE5] @ [lo8 (checkSum [1, 2, 3] 3), hi8 (checkSum [1, 2, 3] 3)]"
proof -
  have "\<exists>X. readData (frame ''READ'' 0x1000 5) exShort = Inr X
      \<and> sent (drop (length (events exShort)) (events X)) = [1, 2, 3, 0xE5, 0xE5, 0, 0]"
    by (simp add: frame_READ_short step_defs exShort_eq ex_defs frame_defs consts_defs
        replicate_update0 replicate_small)
  then obtain X where X: "readData (frame ''READ'' 0x1000 5) exShort = Inr X"
    "sent (drop (length (events exShort)) (events X)) = [1, 2, 3, 0xE5, 0xE5, 0, 0]"
    by blast
  then have "exShortRead = X"
    by (simp add: exShortRead_def stateOf_def)
  with X show ?thesis
    by (simp add: exShort_facts checkSum_def lo8_def hi8_def)
qed

subsection \<open>Two more properties of the framer and of unmountDisk\<close>

text \<open>
  A command frame whose checksum field differs from the sum of its first eight bytes is
  dropped: nothing is sent, no signal is emitted, \<open>crcErrs\<close> goes up by one and the framer
  waits for the next command with an empty buffer.
\<close>

lemma bad_command_checksum_dropped:
  assumes "state s = STATE_CMD" and "sized s" and "tmpBufIdx s = 0"
    and "length fr = CMDBUF_SIZE" and "checksum fr \<noteq> checkSum fr CMD_LEN"
  shows "\<exists>s'. readData fr s = Inr s' \<and> events s' = events s
           \<and> crcErrs s' = crcErrs s + 1 \<and> state s' = STATE_CMD \<and> tmpBufIdx s' = 0"
proof -
  have lens: "length (tmpBuf s) = TRKBUF_BYTES" "length (cmdBuf s) = CMDBUF_SIZE"
    using assms(2) by (simp_all add: sized_def)
  have fr10: "length fr = 10"
    using assms(4) by (simp add: CMDBUF_SIZE_def CMD_LEN_def CRC_LEN_def)
  have rd: "readData fr s = commandFrame (s\<lparr>tmpBuf := fr @ drop CMDBUF_SIZE (tmpBuf s),
      tmpBufIdx := CMDBUF_SIZE\<rparr>)"
    using assms(1,3,4) fr10
    by (simp add: readData_def Let_def TRKBUF_BYTES_def TRKBUF_SIZE_def CRC_LEN_def
        CMDBUF_SIZE_def CMD_LEN_def)
  show ?thesis
    unfolding rd using assms(1,4,5) lens
    by (simp add: commandFrame_def Let_def memcpy_def)
qed

lemma bad_command_checksum_dropped_witness:
  "checksum [83, 84, 65, 84, 0, 0, 0, 0, 0, 0] \<noteq> checkSum [83, 84, 65, 84, 0, 0, 0, 0, 0, 0] 8
   \<and> (\<exists>s'. readData [83, 84, 65, 84, 0, 0, 0, 0, 0, 0] exOnline = Inr s'
         \<and> events s' = events exOnline \<and> crcErrs s' = 1 \<and> state s' = STATE_CMD)"
proof -
  have ne: "checksum [83, 84, 65, 84, 0, 0, 0, 0, 0, 0]
      \<noteq> checkSum [83, 84, 65, 84, 0, 0, 0, 0, 0, 0] 8"
    by (simp add: frame_defs)
  have "\<exists>s'. readData [83, 84, 65, 84, 0, 0, 0, 0, 0, 0] exOnline = Inr s'
         \<and> events s' = events exOnline \<and> crcErrs s' = crcErrs exOnline + 1
         \<and> state s' = STATE_CMD \<and> tmpBufIdx s' = 0"
    by (rule bad_command_checksum_dropped)
       (use ne in \<open>simp_all add: exOnline_eq exNew_def FDC_new_def sized_def consts_defs\<close>)
  with ne show ?thesis
    by (auto simp add: exOnline_eq exNew_def FDC_new_def)
qed

text \<open>
  \<open>unmountDisk\<close> on a drive in range leaves the drive not mounted with \<open>curTrack\<close> zero,
  and its last signal is \<open>mountChanged(drive, false, ...)\<close>.
\<close>

lemma unmountDisk_resets_track:
  assumes "0 \<le> drive" and "drive < MAX_DRIVE" and "sized s"
    and "isOpen (driveFile s ! nat drive) \<or> curTrack s ! nat drive = 0"
  shows "\<exists>s'. unmountDisk drive s = Inr s'
           \<and> isOpen (driveFile s' ! nat drive) = False \<and> curTrack s' ! nat drive = 0
           \<and> last (events s') = MountChanged drive False [] 0 []"
proof -
  have d: "nat drive < length (driveFile s)" "nat drive < length (curTrack s)"
    using assms(1,2,3) by (simp_all add: sized_def MAX_DRIVE_def)
  show ?thesis
  proof (cases "isOpen (driveFile s ! nat drive)")
    case True
    from assms(1,2) have nd: "\<not> drive < 0" "\<not> MAX_DRIVE \<le> drive"
      by simp_all
    from updateTrack_mounted [OF assms(1,2) True, of 0] d True show ?thesis
      by (simp add: unmountDisk_def Let_def nd emit_def uint_0_iff)
  next
    case False
    from assms(1,2) have nd: "\<not> drive < 0" "\<not> MAX_DRIVE \<le> drive"
      by simp_all
    from False assms(4) show ?thesis
      by (simp add: unmountDisk_def Let_def nd emit_def)
  qed
qed

lemma unmountDisk_resets_track_witness:
  "curTrack exRead5 ! 0 = 5 \<and> isOpen (driveFile exRead5 ! 0)
   \<and> (\<exists>s'. unmountDisk 0 exRead5 = Inr s'
         \<and> isOpen (driveFile s' ! 0) = False \<and> curTrack s' ! 0 = 0
         \<and> last (events s') = MountChanged 0 False [] 0 [])"
proof -
  from exRead5_run obtain X where X: "readData (frame ''READ'' 0x0005 137) exMounted = Inr X"
    "curTrack X = [5, 0, 0, 0]"
    "driveFile X = [\<lparr>fileName = ''a.dsk'', isOpen = True, pos = 822\<rparr>,
            \<lparr>fileName = [], isOpen = False, pos = 0\<rparr>,
            \<lparr>fileName = [], isOpen = False, pos = 0\<rparr>,
            \<lparr>fileName = [], isOpen = False, pos = 0\<rparr>]"
    "sized X"
    by blast
  then have e: "exRead5 = X"
    by (simp add: exRead5_def stateOf_def)
  have sz: "sized X" by (rule X)
  from unmountDisk_resets_track [of 0 X] X sz show ?thesis
    by (simp add: e MAX_DRIVE_def)
qed

end
